theory Spec2Isabelle
  imports Complex_Main "HOL-Library.AList" "HOL-Library.Word"
begin

unbundle bit_operations_syntax

section \<open>Python values, exceptions and classes\<close>

text \<open>
  The repository is Python 2. Exceptions are values: a function that can raise returns
  \<open>exn + 'a\<close>, with \<open>Inl\<close> for the raised exception. Every \<open>exn\<close> stands for an
  instance of a class deriving from \<^verbatim>\<open>Exception\<close>, which is what the handler
  \<^verbatim>\<open>except Exception, ex\<close> of \<^verbatim>\<open>cli\<close> catches (\<^verbatim>\<open>KeyboardInterrupt\<close> and
  \<^verbatim>\<open>SystemExit\<close> are outside the model).
\<close>

datatype exn = TypeError string | KeyError string | OSError string | RuntimeError string

text \<open>
  Plain data as the YAML loader produces it: \<^verbatim>\<open>None\<close>, strings, sequences (lists and
  tuples) and mappings. A descriptor's \<^verbatim>\<open>args\<close> and the values stored in a
  configuration dictionary are such values.
\<close>

datatype pyv = PNone | PStr string | PSeq "pyv list" | PMap "(string \<times> pyv) list"

text \<open>Truth value of a Python object, as \<^verbatim>\<open>if x\<close> and \<^verbatim>\<open>not x\<close> test it.\<close>

fun truthy :: "pyv \<Rightarrow> bool" where
  "truthy PNone = False"
| "truthy (PStr s) = (s \<noteq> [])"
| "truthy (PSeq xs) = (xs \<noteq> [])"
| "truthy (PMap m) = (m \<noteq> [])"

text \<open>The items a \<^verbatim>\<open>for\<close> loop draws from a value; \<^verbatim>\<open>None\<close> is not iterable.\<close>

fun py_iter :: "pyv \<Rightarrow> exn + pyv list" where
  "py_iter PNone = Inl (TypeError ''NoneType object is not iterable'')"
| "py_iter (PStr s) = Inr (map (\<lambda>c. PStr [c]) s)"
| "py_iter (PSeq xs) = Inr xs"
| "py_iter (PMap m) = Inr (map (\<lambda>kv. PStr (fst kv)) m)"

text \<open>
  Classes. \<^verbatim>\<open>Target\<close>, \<^verbatim>\<open>YamlShellCommandTarget\<close> and \<^verbatim>\<open>YamlDirTarget\<close> are imported
  by \<^verbatim>\<open>registry.py\<close> from \<^verbatim>\<open>cleanmymac.target\<close>; any other class is \<open>UserClass n b\<close>,
  where \<open>b\<close> tells whether it derives from \<^verbatim>\<open>Target\<close>.
\<close>

datatype pyclass = Target | YamlShellCommandTarget | YamlDirTarget | UserClass string bool

text \<open>
  Modelled from the spec: module \<^verbatim>\<open>cleanmymac.target\<close> is not part of the sources. The
  spec lists the YAML shell-command target and the YAML directory target as the concrete
  variants of the Target abstraction, so both classes derive from \<^verbatim>\<open>Target\<close>.
\<close>

fun derives_Target :: "pyclass \<Rightarrow> bool" where
  "derives_Target Target = True"
| "derives_Target YamlShellCommandTarget = True"
| "derives_Target YamlDirTarget = True"
| "derives_Target (UserClass n b) = b"

text \<open>
  An arbitrary object handed to \<^verbatim>\<open>register_target\<close>: a class, or anything else (an
  instance, a function, a number), kept by its printed form.
\<close>

datatype pyobj = ClassObj pyclass | OtherObj string

text \<open>
  The builtin \<^verbatim>\<open>issubclass(x, Target)\<close>: its first argument must be a class, otherwise
  Python raises \<^verbatim>\<open>TypeError: issubclass() arg 1 must be a class\<close>.
\<close>

fun issubclass_Target :: "pyobj \<Rightarrow> exn + bool" where
  "issubclass_Target (ClassObj c) = Inr (derives_Target c)"
| "issubclass_Target (OtherObj r) = Inl (TypeError ''issubclass() arg 1 must be a class'')"

section \<open>Descriptors, targets and the registry\<close>

text \<open>
  The \<^verbatim>\<open>type\<close> tag of a descriptor is compared with the constants \<^verbatim>\<open>TYPE_TARGET_CMD\<close> and
  \<^verbatim>\<open>TYPE_TARGET_DIR\<close> of \<^verbatim>\<open>cleanmymac.constants\<close>; any other tag is \<open>OtherType\<close>.
\<close>

datatype ttype = TYPE_TARGET_CMD | TYPE_TARGET_DIR | OtherType string

record descriptor =
  dtype :: ttype
  dargs :: pyv

text \<open>
  Modelled from the spec: \<^verbatim>\<open>VALID_TARGET_TYPES\<close> is defined in \<^verbatim>\<open>cleanmymac.constants\<close>,
  which is not part of the sources. The spec gives the closed set of target kinds as
  \<^verbatim>\<open>TYPE_TARGET_CMD | TYPE_TARGET_DIR\<close>.
\<close>

definition VALID_TARGET_TYPES :: "ttype list" where
  "VALID_TARGET_TYPES = [TYPE_TARGET_CMD, TYPE_TARGET_DIR]"

text \<open>The dispatch table \<^verbatim>\<open>__YAML_TYPES__\<close> of \<^verbatim>\<open>registry.py\<close>.\<close>

definition YAML_TYPES :: "(ttype \<times> pyclass) list" where
  "YAML_TYPES = [(TYPE_TARGET_CMD, YamlShellCommandTarget), (TYPE_TARGET_DIR, YamlDirTarget)]"

text \<open>
  Dictionaries are objects with identity: the heap is the list of all dictionary objects,
  an address is an index into it, and a dictionary is an association list in iteration
  order. \<^verbatim>\<open>d[k] = v\<close> is \<open>AList.update k v\<close>: it replaces the value of an existing key
  and adds a new key otherwise.
\<close>

type_synonym dict = "(string \<times> pyv) list"
type_synonym addr = nat

text \<open>
  Modelled from the spec: the constructors of the target classes are not part of the
  sources. A Target has the attributes \<^verbatim>\<open>config\<close>, \<^verbatim>\<open>update\<close> and \<^verbatim>\<open>verbose\<close>; an
  instance records its class and the three constructor arguments, the configuration by
  reference (\<open>None\<close> for Python's \<^verbatim>\<open>None\<close>).
\<close>

record target_inst =
  cls :: pyclass
  config_ref :: "addr option"
  update_flag :: bool
  verbose_flag :: bool

text \<open>What a target initializer returns: \<^verbatim>\<open>None\<close> or an instance.\<close>

datatype pyres = RNone | RInst target_inst

fun isinstance_Target :: "pyres \<Rightarrow> bool" where
  "isinstance_Target RNone = False"
| "isinstance_Target (RInst i) = derives_Target (cls i)"

text \<open>
  A value of the registry \<^verbatim>\<open>__TARGETS__\<close>: the object stored by \<^verbatim>\<open>register_target\<close>,
  or \<^verbatim>\<open>partial(load_target, yaml_file)\<close> stored by \<^verbatim>\<open>register_yaml_targets\<close>.
\<close>

datatype initializer = ObjInit pyobj | YamlInit string

section \<open>Output and observable events\<close>

text \<open>
  The lines the program writes, by their format string and the values formatted into it:
  \<open>Cleaning n\<close> is \<^verbatim>\<open>'cleaning: {0}'.format(name.upper())\<close>, \<open>Freed d\<close> is
  \<^verbatim>\<open>'freed {0:.3f} MB of disk space'.format(d)\<close>, \<open>Description d\<close> is the text that
  \<^verbatim>\<open>describe()\<close> returned, and so on.
\<close>

datatype msg =
    FoundTargets nat
  | Cleaning string
  | ListEntry string
  | Description string
  | ExpectedInstance pyres
  | CouldNotCleanup string exn
  | CleanupComplete
  | Freed real
  | UnknownYamlType ttype
  | ExpectedSubclass string pyclass
  | Registering string
  | NotOfTypeTarget string pyobj
  | NoTargetFound string
  | InvalidDescriptor string

text \<open>
  The trace of a run: what is written through \<^verbatim>\<open>cleanmymac.log\<close> (\<open>EchoInfo\<close>,
  \<open>EchoWarn\<close>, \<open>LogError\<close>, \<open>LogWarn\<close>, \<open>LogDebug\<close>), each call of \<^verbatim>\<open>get_disk_usage\<close>, of
  a target initializer, of \<^verbatim>\<open>describe()\<close>, of a target itself, and of \<^verbatim>\<open>sleep\<close>.
\<close>

datatype event =
    EchoInfo msg
  | EchoWarn msg
  | LogError msg
  | LogWarn msg
  | LogDebug msg
  | DiskUsage
  | Instantiate string
  | Describe string
  | Invoke string
  | Sleep

section \<open>State and collaborators\<close>

text \<open>
  The mutable state: the module-level registry \<^verbatim>\<open>__TARGETS__\<close> (a dictionary, kept as an
  association list in its iteration order), the heap of dictionary objects, and the
  outside world \<open>'w\<close> (file system and processes) that targets act on.
\<close>

record 'w state =
  TARGETS :: "(string \<times> initializer) list"
  heap :: "dict list"
  world :: 'w

text \<open>
  What the generator \<^verbatim>\<open>cleanmymac.util.yaml_files\<close> does while the loop of
  \<^verbatim>\<open>register_yaml_targets\<close> draws from it, in order: it yields a pair of a name and a
  file, or it writes a warning to the log.
\<close>

datatype scan_step = Yield string string | Warn msg

text \<open>
  The collaborators that are not part of the sources are parameters:
  \<^item> \<open>yaml_files p\<close>: the steps of the generator \<^verbatim>\<open>cleanmymac.util.yaml_files(p)\<close>, and
    the exception that ends it early, if any;
  \<^item> \<open>dict_slot ks k\<close>: the index of the slot that key \<open>k\<close> occupies in the hash table of
    the dictionary that the interpreter builds from items with the keys \<open>ks\<close>, inserted in
    that order; a Python 2 dictionary iterates over its items in the order of their slots;
  \<^item> \<open>isdir p\<close>: \<^verbatim>\<open>os.path.isdir(p)\<close>;
  \<^item> \<open>read_descriptor f\<close>: \<^verbatim>\<open>open\<close>, \<^verbatim>\<open>yaml.load\<close> and \<^verbatim>\<open>validate_yaml_target\<close> on file
    \<open>f\<close>: the validated description, or the exception one of the three raises;
  \<^item> \<open>describe\<close> and \<open>invoke\<close>: the methods \<^verbatim>\<open>describe()\<close> and \<^verbatim>\<open>__call__()\<close> of a target
    instance; \<open>invoke\<close> changes the world, also when it raises;
  \<^item> \<open>get_disk_usage w\<close>: \<^verbatim>\<open>get_disk_usage('/', unit=UNIT_MB).free\<close>, read as a real number
    (the rounding of \<^verbatim>\<open>{0:.3f}\<close> is not modelled).
\<close>

record 'w env =
  yaml_files :: "pyv \<Rightarrow> scan_step list \<times> exn option"
  dict_slot :: "string list \<Rightarrow> string \<Rightarrow> nat"
  isdir :: "pyv \<Rightarrow> exn + bool"
  read_descriptor :: "string \<Rightarrow> exn + descriptor"
  describe :: "target_inst \<Rightarrow> dict list \<Rightarrow> 'w \<Rightarrow> exn + string"
  invoke :: "target_inst \<Rightarrow> dict list \<Rightarrow> 'w \<Rightarrow> (exn + unit) \<times> 'w"
  get_disk_usage :: "'w \<Rightarrow> real"

section \<open>registry.py\<close>

text \<open>
  \<^verbatim>\<open>load_target(yaml_file, config, update, verbose)\<close>. The argument \<open>config\<close> is \<open>None\<close>
  or the address of a dictionary. \<^verbatim>\<open>if not config: config = {}\<close> allocates a new
  dictionary at the end of the heap when \<open>config\<close> is \<^verbatim>\<open>None\<close> or an empty dictionary;
  \<^verbatim>\<open>config['args'] = description['args']\<close> then writes into the object \<open>config\<close> refers to.
\<close>

definition load_target ::
  "'w env \<Rightarrow> string \<Rightarrow> addr option \<Rightarrow> bool \<Rightarrow> bool \<Rightarrow> 'w state \<Rightarrow> event list \<times> 'w state \<times> (exn + pyres)"
where
  "load_target env yaml_file config update verbose s =
    (case read_descriptor env yaml_file of
       Inl e \<Rightarrow> ([], s, Inl e)
     | Inr description \<Rightarrow>
         if dtype description \<notin> set VALID_TARGET_TYPES
         then ([LogError (UnknownYamlType (dtype description))], s, Inr RNone)
         else (case map_of YAML_TYPES (dtype description) of
                 None \<Rightarrow> ([], s, Inl (KeyError ''type''))
               | Some target_class \<Rightarrow>
                   if \<not> derives_Target target_class
                   then ([LogError (ExpectedSubclass yaml_file target_class)], s, Inr RNone)
                   else
                     let fresh = (case config of None \<Rightarrow> True | Some a \<Rightarrow> heap s ! a = []);
                         hp = (if fresh then heap s @ [[]] else heap s);
                         a = (if fresh then length (heap s) else the config);
                         hp' = hp[a := AList.update ''args'' (dargs description) (hp ! a)]
                     in ([], s\<lparr>heap := hp'\<rparr>,
                         Inr (RInst \<lparr>cls = target_class, config_ref = Some a,
                                     update_flag = update, verbose_flag = verbose\<rparr>))))"

text \<open>\<^verbatim>\<open>register_target(name, target)\<close>.\<close>

definition register_target ::
  "string \<Rightarrow> pyobj \<Rightarrow> 'w state \<Rightarrow> event list \<times> 'w state \<times> (exn + unit)"
where
  "register_target name target s =
    (case issubclass_Target target of
       Inl e \<Rightarrow> ([], s, Inl e)
     | Inr True \<Rightarrow>
         ([LogDebug (Registering name)],
          s\<lparr>TARGETS := AList.update name (ObjInit target) (TARGETS s)\<rparr>, Inr ())
     | Inr False \<Rightarrow> ([LogError (NotOfTypeTarget name target)], s, Inr ()))"

text \<open>
  \<^verbatim>\<open>register_yaml_targets(path)\<close>: the \<^verbatim>\<open>for\<close> loop over \<^verbatim>\<open>yaml_files(path)\<close>, whose body
  runs for every pair the generator yields, and then the call as a whole. A warning of the
  generator goes to the log between two passes through the body.
\<close>

fun register_files :: "scan_step list \<Rightarrow> 'w state \<Rightarrow> event list \<times> 'w state" where
  "register_files [] s = ([], s)"
| "register_files (Yield name yaml_file # rest) s =
    (let s' = s\<lparr>TARGETS := AList.update name (YamlInit yaml_file) (TARGETS s)\<rparr>;
         (ev, s'') = register_files rest s'
     in (LogDebug (Registering name) # ev, s''))"
| "register_files (Warn m # rest) s =
    (let (ev, s') = register_files rest s in (LogWarn m # ev, s'))"

definition register_yaml_targets ::
  "'w env \<Rightarrow> pyv \<Rightarrow> 'w state \<Rightarrow> event list \<times> 'w state \<times> (exn + unit)"
where
  "register_yaml_targets env path s =
    (let (files, raised) = yaml_files env path;
         (ev, s') = register_files files s
     in (ev, s', case raised of None \<Rightarrow> Inr () | Some e \<Rightarrow> Inl e))"

text \<open>\<^verbatim>\<open>get_target(name)\<close>.\<close>

definition get_target :: "string \<Rightarrow> 'w state \<Rightarrow> event list \<times> initializer option" where
  "get_target name s =
    (case map_of (TARGETS s) name of
       Some t \<Rightarrow> ([], Some t)
     | None \<Rightarrow> ([LogError (NoTargetFound name)], None))"

text \<open>\<^verbatim>\<open>iter_targets()\<close>: the items of the registry in its iteration order.\<close>

definition iter_targets :: "'w state \<Rightarrow> (string \<times> initializer) list" where
  "iter_targets s = TARGETS s"

section \<open>cli.py\<close>

text \<open>
  The global configuration as \<^verbatim>\<open>get_options\<close> returns it: a dictionary from keys to
  dictionary objects (by address).
\<close>

type_synonym config = "(string \<times> addr) list"

definition config_targets_path :: "config \<Rightarrow> dict list \<Rightarrow> pyv" where
  "config_targets_path config hp =
    (case map_of config ''cleanmymac'' of
       Some a \<Rightarrow> (case map_of (hp ! a) ''targets_path'' of Some v \<Rightarrow> v | None \<Rightarrow> PSeq [])
     | None \<Rightarrow> PSeq [])"

text \<open>The command-line arguments of \<^verbatim>\<open>cli\<close>; \<open>targets_path\<close> and \<open>targets\<close> are tuples.\<close>

record options =
  update :: bool
  dry_run :: bool
  quiet :: bool
  list_targets :: bool
  stop_on_error :: bool
  targets_path :: pyv
  targets :: "string list"

text \<open>\<^verbatim>\<open>log_message = echo_info if verbose else lambda msg: msg\<close>.\<close>

definition log_message :: "bool \<Rightarrow> msg \<Rightarrow> event list" where
  "log_message verbose m = (if verbose then [EchoInfo m] else [])"

text \<open>
  Calling a registry value with \<^verbatim>\<open>(target_cfg, update=update, verbose=verbose)\<close>: a class
  is instantiated, a partial application of \<^verbatim>\<open>load_target\<close> runs \<^verbatim>\<open>load_target\<close>, and an
  object that is not a class is taken not to be callable.
\<close>

definition call_initializer ::
  "'w env \<Rightarrow> initializer \<Rightarrow> addr option \<Rightarrow> bool \<Rightarrow> bool \<Rightarrow> 'w state \<Rightarrow> event list \<times> 'w state \<times> (exn + pyres)"
where
  "call_initializer env ini target_cfg upd verbose s =
    (case ini of
       ObjInit (ClassObj c) \<Rightarrow>
         ([], s, Inr (RInst \<lparr>cls = c, config_ref = target_cfg,
                              update_flag = upd, verbose_flag = verbose\<rparr>))
     | ObjInit (OtherObj r) \<Rightarrow> ([], s, Inl (TypeError ''object is not callable''))
     | YamlInit yaml_file \<Rightarrow> load_target env yaml_file target_cfg upd verbose s)"

text \<open>How one pass through the body of the target loop ends.\<close>

datatype flow = Next | Break | Raise exn

text \<open>The body of the loop \<^verbatim>\<open>for name, target_initializer in targets_to_process\<close>.\<close>

definition process_target ::
  "'w env \<Rightarrow> options \<Rightarrow> config \<Rightarrow> string list \<Rightarrow> string \<times> initializer \<Rightarrow> 'w state \<Rightarrow> event list \<times> 'w state \<times> flow"
where
  "process_target env opts config target_names item s =
    (let name = fst item; target_initializer = snd item; verbose = \<not> quiet opts in
     if name \<notin> set target_names then ([], s, Next)
     else
       let ev0 = log_message verbose (Cleaning name) @ [Instantiate name];
           target_cfg = map_of config name
       in case call_initializer env target_initializer target_cfg (update opts) verbose s of
            (ev1, s1, Inl e) \<Rightarrow> (ev0 @ ev1, s1, Raise e)
          | (ev1, s1, Inr target) \<Rightarrow>
              (case target of
                 RNone \<Rightarrow> (ev0 @ ev1 @ [LogError (ExpectedInstance target)], s1, Next)
               | RInst t \<Rightarrow>
                   if \<not> isinstance_Target target
                   then (ev0 @ ev1 @ [LogError (ExpectedInstance target)], s1, Next)
                   else if dry_run opts
                   then (case describe env t (heap s1) (world s1) of
                           Inl e \<Rightarrow> (ev0 @ ev1 @ [Describe name], s1, Raise e)
                         | Inr d \<Rightarrow>
                             (ev0 @ ev1 @ [Describe name, EchoWarn (Description d)]
                                @ (if \<not> verbose then [Sleep] else []), s1, Next))
                   else (case invoke env t (heap s1) (world s1) of
                           (Inl ex, w) \<Rightarrow>
                             if stop_on_error opts
                             then (ev0 @ ev1 @ [Invoke name, LogError (CouldNotCleanup name ex)],
                                   s1\<lparr>world := w\<rparr>, Break)
                             else (ev0 @ ev1 @ [Invoke name, LogError (CouldNotCleanup name ex)]
                                     @ (if \<not> verbose then [Sleep] else []),
                                   s1\<lparr>world := w\<rparr>, Next)
                         | (Inr u, w) \<Rightarrow>
                             (ev0 @ ev1 @ [Invoke name] @ (if \<not> verbose then [Sleep] else []),
                              s1\<lparr>world := w\<rparr>, Next))))"

fun target_loop ::
  "'w env \<Rightarrow> options \<Rightarrow> config \<Rightarrow> string list \<Rightarrow> (string \<times> initializer) list \<Rightarrow> 'w state \<Rightarrow> event list \<times> 'w state \<times> flow"
where
  "target_loop env opts config target_names [] s = ([], s, Next)"
| "target_loop env opts config target_names (item # rest) s =
    (case process_target env opts config target_names item s of
       (ev, s', Next) \<Rightarrow>
         (case target_loop env opts config target_names rest s' of
            (ev', s'', fl) \<Rightarrow> (ev @ ev', s'', fl))
     | (ev, s', Break) \<Rightarrow> (ev, s', Break)
     | (ev, s', Raise e) \<Rightarrow> (ev, s', Raise e))"

text \<open>
  Lines 112 to 115 of \<^verbatim>\<open>cli\<close>: the extra directories of the configuration, then the
  \<^verbatim>\<open>-t\<close> option.
\<close>

fun register_each ::
  "'w env \<Rightarrow> pyv list \<Rightarrow> 'w state \<Rightarrow> event list \<times> 'w state \<times> (exn + unit)"
where
  "register_each env [] s = ([], s, Inr ())"
| "register_each env (pth # rest) s =
    (case register_yaml_targets env pth s of
       (ev, s', Inl e) \<Rightarrow> (ev, s', Inl e)
     | (ev, s', Inr u) \<Rightarrow>
         (case register_each env rest s' of (ev', s'', r) \<Rightarrow> (ev @ ev', s'', r)))"

definition register_extra_targets ::
  "'w env \<Rightarrow> options \<Rightarrow> config \<Rightarrow> 'w state \<Rightarrow> event list \<times> 'w state \<times> (exn + unit)"
where
  "register_extra_targets env opts config s =
    (case py_iter (config_targets_path config (heap s)) of
       Inl e \<Rightarrow> ([], s, Inl e)
     | Inr pths \<Rightarrow>
         (case register_each env pths s of
            (ev, s', Inl e) \<Rightarrow> (ev, s', Inl e)
          | (ev, s', Inr u) \<Rightarrow>
              if truthy (targets_path opts)
              then (case isdir env (targets_path opts) of
                      Inl e \<Rightarrow> (ev, s', Inl e)
                    | Inr True \<Rightarrow>
                        (case register_yaml_targets env (targets_path opts) s' of
                           (ev', s'', r) \<Rightarrow> (ev @ ev', s'', r))
                    | Inr False \<Rightarrow> (ev, s', Inr ()))
              else (ev, s', Inr ())))"

text \<open>
  \<^verbatim>\<open>dict(items)\<close>: a new dictionary, into which the items are inserted one after the
  other. It holds the same items and iterates over them in the order of the slots they
  have come to occupy, which need not be the order in which they were inserted.
\<close>

definition dict_copy ::
  "'w env \<Rightarrow> (string \<times> initializer) list \<Rightarrow> (string \<times> initializer) list"
where
  "dict_copy env items = sort_key (\<lambda>item. dict_slot env (map fst items) (fst item)) items"

text \<open>
  \<^verbatim>\<open>cli\<close>, from its first line on, with \<open>config\<close> the dictionary that
  \<^verbatim>\<open>get_options(path=config)\<close> returns. The result is \<open>Inl e\<close> when exception \<open>e\<close> leaves
  \<^verbatim>\<open>cli\<close>. \<open>all_targets\<close> is the dictionary that \<^verbatim>\<open>dict(iter_targets())\<close> builds on the
  first line; \<open>target_names\<close> is a set in the source and a list here, used for membership
  only. The progress bar only wraps the iteration and is not part of the trace.
\<close>

definition cli ::
  "'w env \<Rightarrow> options \<Rightarrow> config \<Rightarrow> 'w state \<Rightarrow> event list \<times> 'w state \<times> (exn + unit)"
where
  "cli env opts config s =
    (let all_targets = dict_copy env (iter_targets s);
         verbose = \<not> quiet opts;
         target_names = (if targets opts \<noteq> [] then targets opts else map fst all_targets);
         ev0 = log_message verbose (FoundTargets (length all_targets))
     in case register_extra_targets env opts config s of
          (ev1, s1, Inl e) \<Rightarrow> (ev0 @ ev1, s1, Inl e)
        | (ev1, s1, Inr u) \<Rightarrow>
            if list_targets opts
            then (ev0 @ ev1 @ map (\<lambda>item. EchoWarn (ListEntry (fst item))) all_targets, s1, Inr ())
            else
              let free_space_before = get_disk_usage env (world s1) in
              (case target_loop env opts config target_names all_targets s1 of
                 (ev2, s2, Raise e) \<Rightarrow> (ev0 @ ev1 @ [DiskUsage] @ ev2, s2, Inl e)
               | (ev2, s2, fl) \<Rightarrow>
                   let free_space_after = get_disk_usage env (world s2) in
                   (ev0 @ ev1 @ [DiskUsage] @ ev2 @ [DiskUsage]
                      @ (if \<not> dry_run opts
                         then log_message verbose CleanupComplete
                              @ log_message verbose (Freed (free_space_after - free_space_before))
                         else []),
                    s2, Inr ())))"

section \<open>Reading a trace\<close>

text \<open>
  The names of the targets that a trace shows being instantiated, described and invoked,
  in the order of the trace.
\<close>

fun instantiated :: "event list \<Rightarrow> string list" where
  "instantiated [] = []"
| "instantiated (Instantiate n # es) = n # instantiated es"
| "instantiated (e # es) = instantiated es"

fun described :: "event list \<Rightarrow> string list" where
  "described [] = []"
| "described (Describe n # es) = n # described es"
| "described (e # es) = described es"

fun invoked :: "event list \<Rightarrow> string list" where
  "invoked [] = []"
| "invoked (Invoke n # es) = n # invoked es"
| "invoked (e # es) = invoked es"

text \<open>The lines that the registration of targets writes to the log.\<close>

fun registry_log :: "event \<Rightarrow> bool" where
  "registry_log (LogDebug m) = True"
| "registry_log (LogWarn m) = True"
| "registry_log e = False"

text \<open>
  An initializer that returns a Target instance whatever the state: a registered class
  deriving from \<^verbatim>\<open>Target\<close>, or the deferred \<^verbatim>\<open>load_target\<close> of a descriptor file that
  validates and has a valid type.
\<close>

definition yields_target :: "'w env \<Rightarrow> initializer \<Rightarrow> bool" where
  "yields_target env ini =
    (case ini of
       ObjInit (ClassObj c) \<Rightarrow> derives_Target c
     | ObjInit (OtherObj r) \<Rightarrow> False
     | YamlInit f \<Rightarrow>
         (case read_descriptor env f of
            Inl e \<Rightarrow> False
          | Inr d \<Rightarrow> dtype d \<in> set VALID_TARGET_TYPES))"

text \<open>
  A descriptor file that is valid: it opens, parses and validates, and its type is one of
  \<^verbatim>\<open>VALID_TARGET_TYPES\<close>.
\<close>

definition valid_descriptor :: "'w env \<Rightarrow> string \<Rightarrow> bool" where
  "valid_descriptor env yaml_file =
    (case read_descriptor env yaml_file of
       Inl e \<Rightarrow> False
     | Inr d \<Rightarrow> dtype d \<in> set VALID_TARGET_TYPES)"

text \<open>
  Modelled from the spec: \<^verbatim>\<open>cleanmymac.util.yaml_files\<close> is not part of the sources, and
  \<^verbatim>\<open>register_yaml_targets\<close> registers whatever it yields. The spec says of the scan of a
  directory: for each valid file, a deferred load is registered under the name derived
  from the filename; invalid files are skipped with a logged warning, not fatal. So, for
  a directory whose descriptor files are \<open>entries\<close>, each with the name derived from its
  filename, the generator yields the valid ones and warns about the others.
\<close>

definition yaml_files_spec :: "'w env \<Rightarrow> (string \<times> string) list \<Rightarrow> scan_step list" where
  "yaml_files_spec env entries =
    map (\<lambda>entry. if valid_descriptor env (snd entry) then Yield (fst entry) (snd entry)
                  else Warn (InvalidDescriptor (snd entry))) entries"

text \<open>What the loop of \<^verbatim>\<open>register_yaml_targets\<close> logs and registers, step by step.\<close>

fun step_event :: "scan_step \<Rightarrow> event" where
  "step_event (Yield name yaml_file) = LogDebug (Registering name)"
| "step_event (Warn m) = LogWarn m"

fun step_update :: "scan_step \<Rightarrow> (string \<times> initializer) list \<Rightarrow> (string \<times> initializer) list" where
  "step_update (Yield name yaml_file) reg = AList.update name (YamlInit yaml_file) reg"
| "step_update (Warn m) reg = reg"

section \<open>Dictionaries of CPython 2.7\<close>

text \<open>
  The interpreter the repository was written for: the hash of a string
  (\<^verbatim>\<open>string_hash\<close> in \<^verbatim>\<open>Objects/stringobject.c\<close>, on a 64-bit build without hash
  randomisation) and the insertion of a string key into a dictionary (\<^verbatim>\<open>lookdict_string\<close>
  in \<^verbatim>\<open>Objects/dictobject.c\<close>). A new dictionary has a table of eight slots, which it keeps
  as long as it holds fewer than six keys; larger dictionaries are not modelled.
\<close>

definition py27_hash :: "string \<Rightarrow> 64 word" where
  "py27_hash s =
    (case s of
       [] \<Rightarrow> 0
     | c # cs \<Rightarrow>
         let x = fold (\<lambda>c x. (1000003 * x) XOR of_nat (of_char c)) s
                   (push_bit 7 (of_nat (of_char c)));
             y = x XOR of_nat (length s)
         in if y = - 1 then - 2 else y)"

text \<open>
  The probe sequence after a collision: \<^verbatim>\<open>i = (i << 2) + i + perturb + 1\<close>, slot
  \<^verbatim>\<open>i & mask\<close>, then \<^verbatim>\<open>perturb >>= 5\<close>. The loop ends at a free slot or at the key; the
  first argument bounds the number of probes.
\<close>

fun py27_probe ::
  "nat \<Rightarrow> string option list \<Rightarrow> string \<Rightarrow> 64 word \<Rightarrow> 64 word \<Rightarrow> nat option"
where
  "py27_probe 0 table key i perturb = None"
| "py27_probe (Suc fuel) table key i perturb =
    (let i' = push_bit 2 i + i + perturb + 1;
         j = unat (i' AND of_nat (length table - 1))
     in if table ! j = None \<or> table ! j = Some key then Some j
        else py27_probe fuel table key i' (drop_bit 5 perturb))"

definition py27_lookup :: "string option list \<Rightarrow> string \<Rightarrow> nat option" where
  "py27_lookup table key =
    (let hash = py27_hash key;
         i = hash AND of_nat (length table - 1)
     in if table ! unat i = None \<or> table ! unat i = Some key then Some (unat i)
        else py27_probe 64 table key i hash)"

definition py27_insert :: "string \<Rightarrow> string option list \<Rightarrow> string option list" where
  "py27_insert key table =
    (case py27_lookup table key of None \<Rightarrow> table | Some j \<Rightarrow> table[j := Some key])"

text \<open>The table after the keys have been inserted in order, and the slot of a key in it.\<close>

definition py27_table :: "string list \<Rightarrow> string option list" where
  "py27_table keys = fold py27_insert keys (replicate 8 None)"

definition py27_slot :: "string list \<Rightarrow> string \<Rightarrow> nat" where
  "py27_slot keys key = length (takeWhile (\<lambda>e. e \<noteq> Some key) (py27_table keys))"

section \<open>A concrete installation\<close>

text \<open>
  A small installation used to run the definitions on concrete inputs. The world is the
  free space of the disk in MB. Directory \<^verbatim>\<open>/extra\<close> holds three descriptor files: a
  shell-command target, a descriptor with an unknown type and a file that does not
  validate, and the generator \<^verbatim>\<open>yaml_files\<close> of this installation yields all three.
  Directory targets free 60 MB when invoked and describe themselves by the path in their
  configuration; shell-command targets fail, both when described and when invoked. A
  copied dictionary iterates in the order of insertion.
\<close>

definition ex_env :: "real env" where
  "ex_env =
    \<lparr>yaml_files = (\<lambda>p. if p = PStr ''/extra''
                        then ([Yield ''brew'' ''/extra/brew.yaml'', Yield ''odd'' ''/extra/odd.yaml'',
                               Yield ''bad'' ''/extra/bad.yaml''], None)
                        else ([], None)),
     dict_slot = (\<lambda>ks k. length (takeWhile (\<lambda>x. x \<noteq> k) ks)),
     isdir = (\<lambda>p. case p of PStr d \<Rightarrow> Inr (d = ''/extra'')
                              | _ \<Rightarrow> Inl (TypeError ''need string or buffer'')),
     read_descriptor = (\<lambda>f.
        if f = ''/extra/brew.yaml''
        then Inr \<lparr>dtype = TYPE_TARGET_CMD, dargs = PStr ''brew cleanup''\<rparr>
        else if f = ''/builtins/trash.yaml''
        then Inr \<lparr>dtype = TYPE_TARGET_DIR, dargs = PSeq [PStr ''~/.Trash'']\<rparr>
        else if f = ''/builtins/caches.yaml''
        then Inr \<lparr>dtype = TYPE_TARGET_DIR, dargs = PSeq [PStr ''~/Library/Caches'']\<rparr>
        else if f = ''/builtins/anaconda.yaml''
        then Inr \<lparr>dtype = TYPE_TARGET_CMD, dargs = PStr ''conda clean''\<rparr>
        else if f = ''/extra/odd.yaml''
        then Inr \<lparr>dtype = OtherType ''zip'', dargs = PSeq [PStr ''*.zip'']\<rparr>
        else Inl (OSError ''cannot read'')),
     describe = (\<lambda>t hp w.
        if cls t = YamlDirTarget
        then (case config_ref t of
                None \<Rightarrow> Inl (TypeError ''no configuration'')
              | Some a \<Rightarrow>
                  (case map_of (hp ! a) ''args'' of
                     Some (PSeq [PStr p]) \<Rightarrow> Inr (''rm '' @ p)
                   | _ \<Rightarrow> Inl (KeyError ''args'')))
        else Inl (RuntimeError ''no command'')),
     invoke = (\<lambda>t hp w. if cls t = YamlDirTarget then (Inr (), w + 60)
                          else (Inl (RuntimeError ''exit 1''), w)),
     get_disk_usage = (\<lambda>w. w)\<rparr>"

definition ex_state :: "real state" where
  "ex_state =
    \<lparr>TARGETS = [(''trash'', YamlInit ''/builtins/trash.yaml'')],
     heap = [[(''targets_path'', PSeq [PStr ''/extra''])], [(''args'', PNone), (''keep'', PStr ''yes'')], []],
     world = 100\<rparr>"

text \<open>The same installation with three registered targets, the second one failing.\<close>

definition ex_state3 :: "real state" where
  "ex_state3 =
    ex_state\<lparr>TARGETS := [(''caches'', YamlInit ''/builtins/caches.yaml''),
                          (''brew'', YamlInit ''/extra/brew.yaml''),
                          (''trash'', YamlInit ''/builtins/trash.yaml'')]\<rparr>"

text \<open>
  The same installation run by CPython 2.7, with the registry that registering \<^verbatim>\<open>trash\<close>,
  \<^verbatim>\<open>caches\<close> and \<^verbatim>\<open>anaconda\<close> in that order leaves: \<^verbatim>\<open>anaconda\<close> collides with \<^verbatim>\<open>caches\<close> and
  comes to lie between the two others, so that the registry iterates over \<^verbatim>\<open>trash\<close>,
  \<^verbatim>\<open>anaconda\<close>, \<^verbatim>\<open>caches\<close>.
\<close>

definition py27_env :: "real env" where
  "py27_env = ex_env\<lparr>dict_slot := py27_slot\<rparr>"

definition py27_state :: "real state" where
  "py27_state =
    ex_state\<lparr>TARGETS := [(''trash'', YamlInit ''/builtins/trash.yaml''),
                          (''anaconda'', YamlInit ''/builtins/anaconda.yaml''),
                          (''caches'', YamlInit ''/builtins/caches.yaml'')]\<rparr>"

text \<open>
  The installation with a generator \<^verbatim>\<open>yaml_files\<close> that does what the spec says, on the
  three files of \<^verbatim>\<open>/extra\<close>.
\<close>

definition ex_entries :: "(string \<times> string) list" where
  "ex_entries = [(''brew'', ''/extra/brew.yaml''), (''odd'', ''/extra/odd.yaml''),
                 (''bad'', ''/extra/bad.yaml'')]"

definition spec_env :: "real env" where
  "spec_env =
    ex_env\<lparr>yaml_files := (\<lambda>p. if p = PStr ''/extra''
                                then (yaml_files_spec ex_env ex_entries, None)
                                else ([], None))\<rparr>"

definition ex_config :: config where
  "ex_config = [(''cleanmymac'', 0), (''trash'', 1)]"

definition ex_options :: options where
  "ex_options =
    \<lparr>update = False, dry_run = False, quiet = False, list_targets = False,
     stop_on_error = False, targets_path = PSeq [], targets = []\<rparr>"

section \<open>The registry\<close>

lemma valid_type_cases:
  "t \<in> set VALID_TARGET_TYPES \<longleftrightarrow> t = TYPE_TARGET_CMD \<or> t = TYPE_TARGET_DIR"
  by (auto simp: VALID_TARGET_TYPES_def)

lemma load_target_invalid_type:
  assumes "read_descriptor env f = Inr d" and "dtype d \<notin> set VALID_TARGET_TYPES"
  shows "load_target env f config u v s = ([LogError (UnknownYamlType (dtype d))], s, Inr RNone)"
  using assms by (simp add: load_target_def)

lemma load_target_valid_type:
  assumes "read_descriptor env f = Inr d" and "dtype d \<in> set VALID_TARGET_TYPES"
  shows "load_target env f config u v s =
    (let fresh = (case config of None \<Rightarrow> True | Some a \<Rightarrow> heap s ! a = []);
         hp = (if fresh then heap s @ [[]] else heap s);
         a = (if fresh then length (heap s) else the config)
     in ([], s\<lparr>heap := hp[a := AList.update ''args'' (dargs d) (hp ! a)]\<rparr>,
         Inr (RInst \<lparr>cls = (if dtype d = TYPE_TARGET_CMD then YamlShellCommandTarget else YamlDirTarget),
                     config_ref = Some a, update_flag = u, verbose_flag = v\<rparr>)))"
  using assms by (auto simp: load_target_def valid_type_cases YAML_TYPES_def Let_def)

text \<open>
  C5. When the descriptor file opens, parses and validates, \<^verbatim>\<open>load_target\<close> returns
  \<^verbatim>\<open>None\<close> if the descriptor's type is not one of \<^verbatim>\<open>VALID_TARGET_TYPES\<close>. Otherwise it
  returns an instance of the class that \<^verbatim>\<open>__YAML_TYPES__\<close> gives for the type, built with
  the given \<open>update\<close> and \<open>verbose\<close> flags and with a configuration dictionary that is the
  passed one (the empty one when the passed configuration is \<^verbatim>\<open>None\<close> or empty) with
  key \<^verbatim>\<open>args\<close> set to the descriptor's args.
\<close>

theorem load_target_returns:
  assumes "read_descriptor env yaml_file = Inr d"
    and "\<forall>c. config = Some c \<longrightarrow> c < length (heap s)"
  shows "(dtype d \<notin> set VALID_TARGET_TYPES \<longrightarrow>
            snd (snd (load_target env yaml_file config u v s)) = Inr RNone)
       \<and> (dtype d \<in> set VALID_TARGET_TYPES \<longrightarrow>
            (\<exists>t a. snd (snd (load_target env yaml_file config u v s)) = Inr (RInst t)
                 \<and> map_of YAML_TYPES (dtype d) = Some (cls t)
                 \<and> update_flag t = u \<and> verbose_flag t = v
                 \<and> config_ref t = Some a
                 \<and> a < length (heap (fst (snd (load_target env yaml_file config u v s))))
                 \<and> heap (fst (snd (load_target env yaml_file config u v s))) ! a =
                     AList.update ''args'' (dargs d)
                       (case config of None \<Rightarrow> [] | Some c \<Rightarrow> heap s ! c)))"
proof (intro conjI impI)
  assume "dtype d \<notin> set VALID_TARGET_TYPES"
  then show "snd (snd (load_target env yaml_file config u v s)) = Inr RNone"
    using assms(1) by (simp add: load_target_invalid_type)
next
  assume valid: "dtype d \<in> set VALID_TARGET_TYPES"
  note eq = load_target_valid_type [OF assms(1) valid]
  show "\<exists>t a. snd (snd (load_target env yaml_file config u v s)) = Inr (RInst t)
          \<and> map_of YAML_TYPES (dtype d) = Some (cls t)
          \<and> update_flag t = u \<and> verbose_flag t = v
          \<and> config_ref t = Some a
          \<and> a < length (heap (fst (snd (load_target env yaml_file config u v s))))
          \<and> heap (fst (snd (load_target env yaml_file config u v s))) ! a =
              AList.update ''args'' (dargs d)
                (case config of None \<Rightarrow> [] | Some c \<Rightarrow> heap s ! c)"
  proof (cases config)
    case None
    then show ?thesis
      using valid by (auto simp: eq valid_type_cases YAML_TYPES_def Let_def)
  next
    case (Some c)
    then have "c < length (heap s)" using assms(2) by simp
    then show ?thesis
      using valid Some
      by (cases "heap s ! c = []") (auto simp: eq valid_type_cases YAML_TYPES_def Let_def nth_append)
  qed
qed

text \<open>
  Witness for C5: the shell-command descriptor \<^verbatim>\<open>/extra/brew.yaml\<close> loaded with the
  dictionary at address 1, and the descriptor of unknown type \<^verbatim>\<open>/extra/odd.yaml\<close>.
\<close>

theorem load_target_returns_witness:
  "read_descriptor ex_env ''/extra/brew.yaml'' = Inr \<lparr>dtype = TYPE_TARGET_CMD, dargs = PStr ''brew cleanup''\<rparr>
   \<and> 1 < length (heap ex_state)
   \<and> TYPE_TARGET_CMD \<in> set VALID_TARGET_TYPES
   \<and> load_target ex_env ''/extra/brew.yaml'' (Some 1) True False ex_state =
       ([], ex_state\<lparr>heap := [[(''targets_path'', PSeq [PStr ''/extra''])],
                               [(''args'', PStr ''brew cleanup''), (''keep'', PStr ''yes'')], []]\<rparr>,
        Inr (RInst \<lparr>cls = YamlShellCommandTarget, config_ref = Some 1,
                    update_flag = True, verbose_flag = False\<rparr>))
   \<and> OtherType ''zip'' \<notin> set VALID_TARGET_TYPES
   \<and> snd (snd (load_target ex_env ''/extra/odd.yaml'' (Some 1) True False ex_state)) = Inr RNone"
  using load_target_returns [of ex_env "''/extra/brew.yaml''"
      "\<lparr>dtype = TYPE_TARGET_CMD, dargs = PStr ''brew cleanup''\<rparr>" "Some 1" ex_state True False]
    load_target_returns [of ex_env "''/extra/odd.yaml''"
      "\<lparr>dtype = OtherType ''zip'', dargs = PSeq [PStr ''*.zip'']\<rparr>" "Some 1" ex_state True False]
  by (simp add: ex_env_def ex_state_def load_target_def VALID_TARGET_TYPES_def YAML_TYPES_def)





text \<open>
  C6 fails as stated for an argument that is not a class: \<^verbatim>\<open>issubclass\<close> raises
  \<^verbatim>\<open>TypeError\<close> before anything is logged, and the exception leaves
  \<^verbatim>\<open>register_target\<close>.
\<close>

theorem register_target_not_a_class_raises:
  "register_target ''answer'' (OtherObj ''42'') ex_state =
     ([], ex_state, Inl (TypeError ''issubclass() arg 1 must be a class''))"
  by (simp add: register_target_def)

text \<open>
  C6, amended. For every name and every class that does not derive from \<^verbatim>\<open>Target\<close>,
  \<^verbatim>\<open>register_target\<close> logs an error, does not raise and leaves the state, and so the
  registry, as it was. For every class that derives from \<^verbatim>\<open>Target\<close> it logs a debug
  line, does not raise and binds the name to that class in the registry, replacing an
  earlier binding of the name and keeping every other one.
\<close>

theorem register_target_class:
  "(\<not> derives_Target c \<longrightarrow>
      register_target name (ClassObj c) s = ([LogError (NotOfTypeTarget name (ClassObj c))], s, Inr ()))
   \<and> (derives_Target c \<longrightarrow>
        register_target name (ClassObj c) s =
          ([LogDebug (Registering name)],
           s\<lparr>TARGETS := AList.update name (ObjInit (ClassObj c)) (TARGETS s)\<rparr>, Inr ())
        \<and> map_of (TARGETS (fst (snd (register_target name (ClassObj c) s)))) =
            (map_of (TARGETS s))(name \<mapsto> ObjInit (ClassObj c)))"
  by (simp add: register_target_def update_conv')

text \<open>
  Witness for C6: a class outside the Target hierarchy is refused, and a class deriving
  from \<^verbatim>\<open>Target\<close> replaces the YAML target registered as \<^verbatim>\<open>trash\<close>.
\<close>

theorem register_target_class_witness:
  "\<not> derives_Target (UserClass ''Junk'' False)
   \<and> register_target ''junk'' (ClassObj (UserClass ''Junk'' False)) ex_state =
       ([LogError (NotOfTypeTarget ''junk'' (ClassObj (UserClass ''Junk'' False)))], ex_state, Inr ())
   \<and> derives_Target (UserClass ''Trash'' True)
   \<and> register_target ''trash'' (ClassObj (UserClass ''Trash'' True)) ex_state =
       ([LogDebug (Registering ''trash'')],
        ex_state\<lparr>TARGETS := [(''trash'', ObjInit (ClassObj (UserClass ''Trash'' True)))]\<rparr>, Inr ())"
  using register_target_class [of "UserClass ''Junk'' False" "''junk''" ex_state]
    register_target_class [of "UserClass ''Trash'' True" "''trash''" ex_state]
  by (simp add: ex_state_def)


lemma register_files_fold:
  "register_files steps s =
     (map step_event steps, s\<lparr>TARGETS := fold step_update steps (TARGETS s)\<rparr>)"
proof (induction steps arbitrary: s)
  case Nil
  show ?case by simp
next
  case (Cons st steps)
  show ?case by (cases st) (simp_all add: Cons.IH Let_def)
qed

lemma register_files_frame:
  "heap (snd (register_files files s)) = heap s \<and> world (snd (register_files files s)) = world s"
  by (simp add: register_files_fold)

lemma register_yaml_targets_eq:
  "register_yaml_targets env path s =
     (map step_event (fst (yaml_files env path)),
      s\<lparr>TARGETS := fold step_update (fst (yaml_files env path)) (TARGETS s)\<rparr>,
      case snd (yaml_files env path) of None \<Rightarrow> Inr () | Some e \<Rightarrow> Inl e)"
  by (simp add: register_yaml_targets_def register_files_fold split_def Let_def)

lemma fold_spec_other:
  "name \<notin> fst ` set entries \<Longrightarrow>
     map_of (fold step_update (yaml_files_spec env entries) reg) name = map_of reg name"
proof (induction entries arbitrary: reg)
  case Nil
  show ?case by (simp add: yaml_files_spec_def)
next
  case (Cons entry entries)
  have "map_of (fold step_update (yaml_files_spec env entries) reg') name = map_of reg' name"
    for reg'
    using Cons by simp
  then show ?case
    using Cons.prems by (simp add: yaml_files_spec_def update_conv')
qed

lemma fold_spec_entry:
  assumes "distinct (map fst entries)" and "entry \<in> set entries"
  shows "map_of (fold step_update (yaml_files_spec env entries) reg) (fst entry) =
    (if valid_descriptor env (snd entry) then Some (YamlInit (snd entry))
     else map_of reg (fst entry))"
  using assms
proof (induction entries arbitrary: reg)
  case Nil
  then show ?case by simp
next
  case (Cons e entries)
  have tl: "yaml_files_spec env (e # entries) =
      (if valid_descriptor env (snd e) then Yield (fst e) (snd e)
       else Warn (InvalidDescriptor (snd e))) # yaml_files_spec env entries"
    by (simp add: yaml_files_spec_def)
  show ?case
  proof (cases "entry = e")
    case True
    then have "fst entry \<notin> fst ` set entries"
      using Cons.prems(1) by auto
    then show ?thesis
      using True by (simp add: tl fold_spec_other update_conv')
  next
    case False
    then have "entry \<in> set entries" "distinct (map fst entries)" "fst e \<noteq> fst entry"
      using Cons.prems by force+
    then show ?thesis
      using Cons.IH by (simp add: tl update_conv')
  qed
qed

text \<open>
  C2, against the generator modelled from the spec. For a directory whose descriptor
  files are \<open>entries\<close>, \<^verbatim>\<open>register_yaml_targets\<close> does not raise; for every valid file it
  binds the name derived from the filename to the deferred \<^verbatim>\<open>load_target\<close> of that file;
  for every invalid file a warning is logged and the registry has no entry for it that it
  did not have before; and the names of no file of the directory are bound as before.
\<close>

theorem register_yaml_targets_valid_only:
  assumes "yaml_files env path = (yaml_files_spec env entries, None)"
    and "distinct (map fst entries)"
    and "register_yaml_targets env path s = (ev, s', r)"
  shows "r = Inr ()
       \<and> (\<forall>entry \<in> set entries.
            (valid_descriptor env (snd entry) \<longrightarrow>
               map_of (TARGETS s') (fst entry) = Some (YamlInit (snd entry)))
            \<and> (\<not> valid_descriptor env (snd entry) \<longrightarrow>
                 LogWarn (InvalidDescriptor (snd entry)) \<in> set ev
                 \<and> map_of (TARGETS s') (fst entry) = map_of (TARGETS s) (fst entry)))
       \<and> (\<forall>name. name \<notin> fst ` set entries \<longrightarrow>
            map_of (TARGETS s') name = map_of (TARGETS s) name)"
proof -
  have res: "ev = map step_event (yaml_files_spec env entries)"
    "s' = s\<lparr>TARGETS := fold step_update (yaml_files_spec env entries) (TARGETS s)\<rparr>"
    "r = Inr ()"
    using assms(3) by (simp_all add: register_yaml_targets_eq assms(1))
  have warn: "LogWarn (InvalidDescriptor (snd entry)) \<in> set ev"
    if "entry \<in> set entries" and "\<not> valid_descriptor env (snd entry)" for entry
  proof -
    have "Warn (InvalidDescriptor (snd entry)) \<in> set (yaml_files_spec env entries)"
      using that by (force simp: yaml_files_spec_def)
    then have "step_event (Warn (InvalidDescriptor (snd entry))) \<in> set ev"
      unfolding res(1) by (simp only: set_map image_eqI)
    then show ?thesis by simp
  qed
  show ?thesis
    using res(3) warn fold_spec_entry [OF assms(2), of _ env "TARGETS s"]
      fold_spec_other [of _ entries env "TARGETS s"]
    by (simp add: res(2))
qed

text \<open>
  Witness for C2: the three files of \<^verbatim>\<open>/extra\<close>, of which only \<^verbatim>\<open>brew.yaml\<close> is valid.
\<close>

theorem register_yaml_targets_valid_only_witness:
  "yaml_files spec_env (PStr ''/extra'') =
     ([Yield ''brew'' ''/extra/brew.yaml'', Warn (InvalidDescriptor ''/extra/odd.yaml''),
       Warn (InvalidDescriptor ''/extra/bad.yaml'')], None)
   \<and> distinct (map fst ex_entries)
   \<and> register_yaml_targets spec_env (PStr ''/extra'') ex_state =
       ([LogDebug (Registering ''brew''), LogWarn (InvalidDescriptor ''/extra/odd.yaml''),
         LogWarn (InvalidDescriptor ''/extra/bad.yaml'')],
        ex_state\<lparr>TARGETS := [(''trash'', YamlInit ''/builtins/trash.yaml''),
                               (''brew'', YamlInit ''/extra/brew.yaml'')]\<rparr>,
        Inr ())
   \<and> map_of (TARGETS (fst (snd (register_yaml_targets spec_env (PStr ''/extra'') ex_state)))) ''brew''
       = Some (YamlInit ''/extra/brew.yaml'')
   \<and> map_of (TARGETS (fst (snd (register_yaml_targets spec_env (PStr ''/extra'') ex_state)))) ''odd''
       = None"
proof -
  have v: "valid_descriptor spec_env ''/extra/brew.yaml''"
    "\<not> valid_descriptor spec_env ''/extra/odd.yaml''"
    "\<not> valid_descriptor spec_env ''/extra/bad.yaml''"
    by (simp_all add: valid_descriptor_def spec_env_def ex_env_def VALID_TARGET_TYPES_def)
  have sp: "yaml_files_spec spec_env ex_entries = yaml_files_spec ex_env ex_entries"
    by (simp add: yaml_files_spec_def valid_descriptor_def spec_env_def)
  have a: "yaml_files spec_env (PStr ''/extra'') = (yaml_files_spec spec_env ex_entries, None)"
    unfolding sp by (simp add: spec_env_def)
  have a': "yaml_files spec_env (PStr ''/extra'') =
     ([Yield ''brew'' ''/extra/brew.yaml'', Warn (InvalidDescriptor ''/extra/odd.yaml''),
       Warn (InvalidDescriptor ''/extra/bad.yaml'')], None)"
    unfolding a using v by (simp add: yaml_files_spec_def ex_entries_def)
  have b: "distinct (map fst ex_entries)"
    by (simp add: ex_entries_def)
  have c: "register_yaml_targets spec_env (PStr ''/extra'') ex_state =
       ([LogDebug (Registering ''brew''), LogWarn (InvalidDescriptor ''/extra/odd.yaml''),
         LogWarn (InvalidDescriptor ''/extra/bad.yaml'')],
        ex_state\<lparr>TARGETS := [(''trash'', YamlInit ''/builtins/trash.yaml''),
                               (''brew'', YamlInit ''/extra/brew.yaml'')]\<rparr>,
        Inr ())"
    by (simp add: register_yaml_targets_eq a' ex_state_def)
  note t = register_yaml_targets_valid_only [OF a b,
      of ex_state "fst (register_yaml_targets spec_env (PStr ''/extra'') ex_state)"
         "fst (snd (register_yaml_targets spec_env (PStr ''/extra'') ex_state))"
         "snd (snd (register_yaml_targets spec_env (PStr ''/extra'') ex_state))"]
  have e1: "(''brew'', ''/extra/brew.yaml'') \<in> set ex_entries"
    and e2: "(''odd'', ''/extra/odd.yaml'') \<in> set ex_entries"
    by (simp_all add: ex_entries_def)
  have r1: "map_of (TARGETS (fst (snd (register_yaml_targets spec_env (PStr ''/extra'') ex_state))))
      ''brew'' = Some (YamlInit ''/extra/brew.yaml'')"
    using t e1 v(1) by fastforce
  have r2: "map_of (TARGETS (fst (snd (register_yaml_targets spec_env (PStr ''/extra'') ex_state))))
      ''odd'' = map_of (TARGETS ex_state) ''odd''"
    using t e2 v(2) by fastforce
  have r2': "map_of (TARGETS (fst (snd (register_yaml_targets spec_env (PStr ''/extra'') ex_state))))
      ''odd'' = None"
    unfolding r2 by (simp add: ex_state_def)
  show ?thesis
    using a' b c r1 r2' by (intro conjI)
qed

section \<open>The target loop\<close>

lemma instantiated_append: "instantiated (xs @ ys) = instantiated xs @ instantiated ys"
  by (induction xs rule: instantiated.induct) auto

lemma described_append: "described (xs @ ys) = described xs @ described ys"
  by (induction xs rule: described.induct) auto

lemma invoked_append: "invoked (xs @ ys) = invoked xs @ invoked ys"
  by (induction xs rule: invoked.induct) auto

lemma log_message_calls:
  "instantiated (log_message v m) = []" "described (log_message v m) = []"
  "invoked (log_message v m) = []" "DiskUsage \<notin> set (log_message v m)"
  by (simp_all add: log_message_def)

lemma load_target_frame:
  assumes "load_target env f cfg u v s = (ev, s', r)"
  shows "world s' = world s" and "TARGETS s' = TARGETS s"
    and "instantiated ev = []" and "described ev = []" and "invoked ev = []"
    and "DiskUsage \<notin> set ev" and "LogError (NoTargetFound n) \<notin> set ev"
    and "r = Inr (RInst t) \<Longrightarrow> derives_Target (cls t)"
  using assms
  by (auto simp: load_target_def Let_def split: sum.splits option.splits if_splits)

lemma call_initializer_frame:
  assumes "call_initializer env ini cfg u v s = (ev, s', r)"
  shows "world s' = world s" and "TARGETS s' = TARGETS s"
    and "instantiated ev = []" and "described ev = []" and "invoked ev = []"
    and "DiskUsage \<notin> set ev" and "LogError (NoTargetFound n) \<notin> set ev"
  using assms load_target_frame [of env _ cfg u v s ev s' r]
  by (auto simp: call_initializer_def split: initializer.splits pyobj.splits)

lemma yields_target_call:
  assumes "yields_target env ini"
  shows "\<exists>hp t. call_initializer env ini cfg u v s = ([], s\<lparr>heap := hp\<rparr>, Inr (RInst t))
           \<and> derives_Target (cls t)"
proof (cases ini)
  case (ObjInit x)
  then obtain c where c: "x = ClassObj c" "derives_Target c"
    using assms by (cases x) (auto simp: yields_target_def)
  let ?t = "\<lparr>cls = c, config_ref = cfg, update_flag = u, verbose_flag = v\<rparr>"
  have "call_initializer env ini cfg u v s = ([], s\<lparr>heap := heap s\<rparr>, Inr (RInst ?t))"
    using ObjInit c by (simp add: call_initializer_def)
  then show ?thesis using c by fastforce
next
  case (YamlInit f)
  then obtain d where d: "read_descriptor env f = Inr d" "dtype d \<in> set VALID_TARGET_TYPES"
    using assms by (auto simp: yields_target_def split: sum.splits)
  show ?thesis
    using YamlInit load_target_valid_type [OF d, of cfg u v s]
    by (auto simp: call_initializer_def Let_def)
qed


lemma process_target_unselected:
  "fst item \<notin> set tn \<Longrightarrow> process_target env opts config tn item s = ([], s, Next)"
  by (simp add: process_target_def)

lemma process_target_names_cong:
  "(fst item \<in> set tn \<longleftrightarrow> fst item \<in> set tn') \<Longrightarrow>
     process_target env opts config tn item s = process_target env opts config tn' item s"
  by (simp add: process_target_def)

lemma process_target_opts_cong:
  assumes "update opts' = update opts" and "dry_run opts' = dry_run opts"
    and "quiet opts' = quiet opts"
    and "dry_run opts \<or> stop_on_error opts' = stop_on_error opts"
  shows "process_target env opts' config tn item s = process_target env opts config tn item s"
  using assms by (auto simp: process_target_def Let_def split: prod.splits sum.splits pyres.splits)

lemma process_target_frame:
  assumes "process_target env opts config tn item s = (ev, s', fl)"
  shows "TARGETS s' = TARGETS s" and "DiskUsage \<notin> set ev"
    and "LogError (NoTargetFound n) \<notin> set ev"
    and "instantiated ev = (if fst item \<in> set tn then [fst item] else [])"
    and "set (invoked ev) \<subseteq> {fst item}" and "set (described ev) \<subseteq> {fst item}"
    and "dry_run opts \<Longrightarrow> invoked ev = [] \<and> world s' = world s \<and> fl \<noteq> Break"
    and "\<not> dry_run opts \<Longrightarrow> described ev = []"
proof -
  obtain ev1 s1 r where ci: "call_initializer env (snd item) (map_of config (fst item))
      (update opts) (\<not> quiet opts) s = (ev1, s1, r)"
    by (metis prod_cases3)
  note fr = call_initializer_frame [OF ci]
  note defs = process_target_def Let_def ci instantiated_append invoked_append
    described_append log_message_calls
  show "TARGETS s' = TARGETS s"
    using assms fr(2) by (auto simp: defs split: sum.splits pyres.splits if_splits prod.splits)
  show "DiskUsage \<notin> set ev"
    using assms fr(6) by (auto simp: defs split: sum.splits pyres.splits if_splits prod.splits)
  show "LogError (NoTargetFound n) \<notin> set ev"
    using assms fr(7) [of n]
    by (auto simp: defs log_message_def split: sum.splits pyres.splits if_splits prod.splits)
  show "instantiated ev = (if fst item \<in> set tn then [fst item] else [])"
    using assms fr(3) by (auto simp: defs split: sum.splits pyres.splits if_splits prod.splits)
  show "set (invoked ev) \<subseteq> {fst item}"
    using assms fr(5) by (auto simp: defs split: sum.splits pyres.splits if_splits prod.splits)
  show "set (described ev) \<subseteq> {fst item}"
    using assms fr(4) by (auto simp: defs split: sum.splits pyres.splits if_splits prod.splits)
  show "dry_run opts \<Longrightarrow> invoked ev = [] \<and> world s' = world s \<and> fl \<noteq> Break"
    using assms fr(1,5) by (auto simp: defs split: sum.splits pyres.splits if_splits prod.splits)
  show "\<not> dry_run opts \<Longrightarrow> described ev = []"
    using assms fr(4) by (auto simp: defs split: sum.splits pyres.splits if_splits prod.splits)
qed


lemma target_loop_names_cong:
  "\<forall>n \<in> fst ` set xs. n \<in> set tn \<longleftrightarrow> n \<in> set tn' \<Longrightarrow>
     target_loop env opts config tn xs s = target_loop env opts config tn' xs s"
proof (induction xs arbitrary: s)
  case Nil
  show ?case by simp
next
  case (Cons item rest)
  have "process_target env opts config tn item s = process_target env opts config tn' item s"
    using Cons.prems by (intro process_target_names_cong) simp
  moreover have "\<And>s'. target_loop env opts config tn rest s' = target_loop env opts config tn' rest s'"
    using Cons by simp
  ultimately show ?case by simp
qed

lemma target_loop_opts_cong:
  assumes "update opts' = update opts" and "dry_run opts' = dry_run opts"
    and "quiet opts' = quiet opts"
    and "dry_run opts \<or> stop_on_error opts' = stop_on_error opts"
  shows "target_loop env opts' config tn xs s = target_loop env opts config tn xs s"
  by (induction xs arbitrary: s) (simp_all add: process_target_opts_cong [OF assms])

lemma target_loop_unselected:
  "\<forall>n \<in> fst ` set xs. n \<notin> set tn \<Longrightarrow> target_loop env opts config tn xs s = ([], s, Next)"
  by (induction xs arbitrary: s) (simp_all add: process_target_unselected)

lemma target_loop_append:
  "target_loop env opts config tn (xs @ ys) s =
     (case target_loop env opts config tn xs s of
        (ev, s', Next) \<Rightarrow>
          (case target_loop env opts config tn ys s' of (ev', s'', fl) \<Rightarrow> (ev @ ev', s'', fl))
      | (ev, s', Break) \<Rightarrow> (ev, s', Break)
      | (ev, s', Raise e) \<Rightarrow> (ev, s', Raise e))"
  by (induction xs arbitrary: s) (auto split: prod.splits flow.splits)

lemma target_loop_frame:
  assumes "target_loop env opts config tn xs s = (ev, s', fl)"
  shows "TARGETS s' = TARGETS s \<and> DiskUsage \<notin> set ev \<and> LogError (NoTargetFound n) \<notin> set ev
    \<and> set (instantiated ev) \<subseteq> fst ` set xs \<inter> set tn
    \<and> set (invoked ev) \<subseteq> fst ` set xs \<inter> set tn
    \<and> (dry_run opts \<longrightarrow> invoked ev = [] \<and> world s' = world s \<and> fl \<noteq> Break)
    \<and> (\<not> dry_run opts \<longrightarrow> described ev = [])"
  using assms
proof (induction xs arbitrary: s ev s' fl)
  case Nil
  then show ?case by simp
next
  case (Cons item rest)
  obtain ev1 s1 fl1 where pt: "process_target env opts config tn item s = (ev1, s1, fl1)"
    by (metis prod_cases3)
  note fr = process_target_frame [OF pt]
  have inv1: "set (invoked ev1) \<subseteq> {fst item} \<inter> set tn"
  proof (cases "fst item \<in> set tn")
    case True
    then show ?thesis using fr(5) by auto
  next
    case False
    then show ?thesis using pt by (simp add: process_target_unselected)
  qed
  show ?case
  proof (cases fl1)
    case Next
    obtain ev2 s2 fl2 where tl: "target_loop env opts config tn rest s1 = (ev2, s2, fl2)"
      by (metis prod_cases3)
    note ih = Cons.IH [OF tl]
    have res: "ev = ev1 @ ev2" "s' = s2" "fl = fl2"
      using Cons.prems pt Next tl by simp_all
    show ?thesis
      unfolding res using ih fr(1,2,3,4,7,8) inv1
      by (auto simp: instantiated_append invoked_append described_append split: if_splits)
  next
    case Break
    then have res: "ev = ev1" "s' = s1" "fl = Break"
      using Cons.prems pt by simp_all
    show ?thesis
      unfolding res using fr(1,2,3,4,7,8) inv1 Break by (auto split: if_splits)
  next
    case (Raise e)
    then have res: "ev = ev1" "s' = s1" "fl = Raise e"
      using Cons.prems pt by simp_all
    show ?thesis
      unfolding res using fr(1,2,3,4,7,8) inv1 Raise by (auto split: if_splits)
  qed
qed

lemma process_target_executes:
  assumes "\<not> dry_run opts" and "fst item \<in> set tn" and "yields_target env (snd item)"
    and "stop_on_error opts \<longrightarrow> (\<forall>t hp w. fst (invoke env t hp w) = Inr ())"
  shows "\<exists>ev s'. process_target env opts config tn item s = (ev, s', Next)
           \<and> instantiated ev = [fst item] \<and> invoked ev = [fst item]"
proof -
  obtain hp t where ci: "call_initializer env (snd item) (map_of config (fst item))
      (update opts) (\<not> quiet opts) s = ([], s\<lparr>heap := hp\<rparr>, Inr (RInst t))"
    and t: "derives_Target (cls t)"
    using yields_target_call [OF assms(3)] by blast
  obtain r w where inv: "invoke env t hp (world s) = (r, w)"
    by (cases "invoke env t hp (world s)")
  have "stop_on_error opts \<Longrightarrow> r = Inr ()"
    using assms(4) inv by (metis fst_conv)
  then show ?thesis
    using assms(1,2) t
    by (cases r)
       (auto simp: process_target_def Let_def ci inv instantiated_append invoked_append
          log_message_calls)
qed

lemma target_loop_executes:
  assumes "\<not> dry_run opts"
    and "\<forall>item \<in> set xs. fst item \<in> set tn \<longrightarrow> yields_target env (snd item)"
    and "stop_on_error opts \<longrightarrow> (\<forall>t hp w. fst (invoke env t hp w) = Inr ())"
  shows "\<exists>ev s'. target_loop env opts config tn xs s = (ev, s', Next)
           \<and> instantiated ev = filter (\<lambda>n. n \<in> set tn) (map fst xs)
           \<and> invoked ev = filter (\<lambda>n. n \<in> set tn) (map fst xs)"
  using assms(2)
proof (induction xs arbitrary: s)
  case Nil
  show ?case by simp
next
  case (Cons item rest)
  show ?case
  proof (cases "fst item \<in> set tn")
    case True
    then have "yields_target env (snd item)" using Cons.prems by simp
    from process_target_executes [OF assms(1) True this assms(3)]
    obtain ev1 s1 where pt: "process_target env opts config tn item s = (ev1, s1, Next)"
      "instantiated ev1 = [fst item]" "invoked ev1 = [fst item]"
      by blast
    from Cons.IH [of s1] Cons.prems
    obtain ev2 s2 where tl: "target_loop env opts config tn rest s1 = (ev2, s2, Next)"
      "instantiated ev2 = filter (\<lambda>n. n \<in> set tn) (map fst rest)"
      "invoked ev2 = filter (\<lambda>n. n \<in> set tn) (map fst rest)"
      by auto
    show ?thesis
      using True pt tl by (simp add: instantiated_append invoked_append)
  next
    case False
    from Cons.IH [of s] Cons.prems
    obtain ev2 s2 where tl: "target_loop env opts config tn rest s = (ev2, s2, Next)"
      "instantiated ev2 = filter (\<lambda>n. n \<in> set tn) (map fst rest)"
      "invoked ev2 = filter (\<lambda>n. n \<in> set tn) (map fst rest)"
      by auto
    show ?thesis
      using False tl by (simp add: process_target_unselected)
  qed
qed

section \<open>The run\<close>

lemma log_only_trace:
  assumes "\<forall>e \<in> set ev. registry_log e"
  shows "instantiated ev = [] \<and> described ev = [] \<and> invoked ev = [] \<and> DiskUsage \<notin> set ev
    \<and> LogError x \<notin> set ev"
  using assms
proof (induction ev)
  case Nil
  show ?case by simp
next
  case (Cons e ev)
  then show ?case by (cases e) auto
qed

lemma step_event_log: "registry_log (step_event st)"
  by (cases st) simp_all

lemma register_yaml_targets_frame:
  assumes "register_yaml_targets env path s = (ev, s', r)"
  shows "heap s' = heap s \<and> world s' = world s \<and> (\<forall>e \<in> set ev. registry_log e)"
  using assms by (auto simp: register_yaml_targets_eq step_event_log)

lemma register_each_frame:
  assumes "register_each env pths s = (ev, s', r)"
  shows "heap s' = heap s \<and> world s' = world s \<and> (\<forall>e \<in> set ev. registry_log e)"
  using assms
proof (induction pths arbitrary: s ev s' r)
  case Nil
  then show ?case by simp
next
  case (Cons pth rest)
  obtain ev1 s1 r1 where ry: "register_yaml_targets env pth s = (ev1, s1, r1)"
    by (metis prod_cases3)
  note fr = register_yaml_targets_frame [OF ry]
  show ?case
  proof (cases r1)
    case (Inl e)
    then show ?thesis using Cons.prems ry fr by auto
  next
    case (Inr u)
    obtain ev2 s2 r2 where re: "register_each env rest s1 = (ev2, s2, r2)"
      by (metis prod_cases3)
    from Cons.IH [OF re] fr Cons.prems ry Inr re show ?thesis by auto
  qed
qed

lemma register_extra_targets_frame:
  assumes "register_extra_targets env opts config s = (ev, s', r)"
  shows "heap s' = heap s \<and> world s' = world s \<and> (\<forall>e \<in> set ev. registry_log e)"
proof (cases "py_iter (config_targets_path config (heap s))")
  case (Inl e)
  then show ?thesis using assms by (simp add: register_extra_targets_def)
next
  case (Inr pths)
  obtain ev1 s1 r1 where re: "register_each env pths s = (ev1, s1, r1)"
    by (metis prod_cases3)
  note fr = register_each_frame [OF re]
  obtain ev2 s2 r2 where ry: "register_yaml_targets env (targets_path opts) s1 = (ev2, s2, r2)"
    by (metis prod_cases3)
  note fr2 = register_yaml_targets_frame [OF ry]
  show ?thesis
    using assms Inr re fr ry fr2
    by (auto simp: register_extra_targets_def split: sum.splits if_splits bool.splits)
qed

lemma register_extra_targets_opts_cong:
  assumes "targets_path opts' = targets_path opts"
  shows "register_extra_targets env opts' config s = register_extra_targets env opts config s"
  unfolding register_extra_targets_def assms by (rule refl)

lemma dict_copy_items:
  "set (dict_copy env items) = set items" "length (dict_copy env items) = length items"
  by (simp_all add: dict_copy_def)

text \<open>The parts of a run that is not a listing.\<close>

lemma cli_run:
  assumes "\<not> list_targets opts"
    and "register_extra_targets env opts config s = (ev1, s1, Inr u)"
    and "target_loop env opts config
           (if targets opts \<noteq> [] then targets opts else map fst (dict_copy env (iter_targets s)))
           (dict_copy env (iter_targets s)) s1 = (ev2, s2, fl)"
  shows "cli env opts config s =
    (log_message (\<not> quiet opts) (FoundTargets (length (iter_targets s))) @ ev1 @ [DiskUsage] @ ev2
       @ (case fl of
            Raise e \<Rightarrow> []
          | _ \<Rightarrow> DiskUsage #
              (if dry_run opts \<or> quiet opts then []
               else [EchoInfo CleanupComplete,
                     EchoInfo (Freed (get_disk_usage env (world s2) - get_disk_usage env (world s1)))])),
     s2, case fl of Raise e \<Rightarrow> Inl e | _ \<Rightarrow> Inr ())"
  using assms by (cases fl) (auto simp: cli_def Let_def log_message_def dict_copy_items)

lemma cli_listing:
  assumes "list_targets opts"
    and "register_extra_targets env opts config s = (ev1, s1, Inr u)"
  shows "cli env opts config s =
    (log_message (\<not> quiet opts) (FoundTargets (length (iter_targets s))) @ ev1
       @ map (\<lambda>item. EchoWarn (ListEntry (fst item))) (dict_copy env (iter_targets s)), s1, Inr ())"
  using assms by (simp add: cli_def Let_def dict_copy_items)

lemma cli_aborted:
  assumes "register_extra_targets env opts config s = (ev1, s1, Inl e)"
  shows "cli env opts config s =
    (log_message (\<not> quiet opts) (FoundTargets (length (iter_targets s))) @ ev1, s1, Inl e)"
  using assms by (simp add: cli_def Let_def dict_copy_items)

lemma list_entries_trace:
  "instantiated (map (\<lambda>item. EchoWarn (ListEntry (fst item))) xs) = []
   \<and> invoked (map (\<lambda>item. EchoWarn (ListEntry (fst item))) xs) = []
   \<and> LogError x \<notin> set (map (\<lambda>item. EchoWarn (ListEntry (fst item))) xs)"
  by (induction xs) auto

lemma cli_trace_frame:
  "set (instantiated (fst (cli env opts config s))) \<subseteq> fst ` set (iter_targets s)
   \<and> set (invoked (fst (cli env opts config s))) \<subseteq> fst ` set (iter_targets s)
   \<and> LogError (NoTargetFound n) \<notin> set (fst (cli env opts config s))"
proof -
  obtain ev1 s1 r where re: "register_extra_targets env opts config s = (ev1, s1, r)"
    by (metis prod_cases3)
  note d1 = log_only_trace [OF conjunct2 [OF conjunct2 [OF register_extra_targets_frame [OF re]]]]
  let ?all = "dict_copy env (iter_targets s)"
  let ?tn = "if targets opts \<noteq> [] then targets opts else map fst ?all"
  obtain ev2 s2 fl where tl: "target_loop env opts config ?tn ?all s1 = (ev2, s2, fl)"
    by (metis prod_cases3)
  note fr = target_loop_frame [OF tl, of n, unfolded dict_copy_items]
  show ?thesis
  proof (cases r)
    case (Inl e)
    then show ?thesis
      using d1 [of "NoTargetFound n"]
      by (simp add: cli_aborted [OF re [unfolded Inl]] instantiated_append invoked_append
          log_message_calls log_message_def)
  next
    case (Inr u)
    show ?thesis
    proof (cases "list_targets opts")
      case True
      show ?thesis
        using d1 [of "NoTargetFound n"] list_entries_trace [of ?all "NoTargetFound n"]
        by (simp add: cli_listing [OF True re [unfolded Inr]]
            instantiated_append invoked_append log_message_calls log_message_def)
    next
      case False
      show ?thesis
        using d1 [of "NoTargetFound n"] fr
        by (cases fl)
           (auto simp: cli_run [OF False re [unfolded Inr] tl]
            instantiated_append invoked_append log_message_calls log_message_def)
    qed
  qed
qed

text \<open>The definitions to unfold when a run is evaluated on the concrete installation.\<close>

lemmas run_defs = cli_def dict_copy_def register_extra_targets_def config_targets_path_def
  register_yaml_targets_def process_target_def call_initializer_def load_target_def
  log_message_def iter_targets_def VALID_TARGET_TYPES_def YAML_TYPES_def Let_def

lemmas ex_defs = ex_env_def ex_state3_def ex_state_def ex_options_def ex_config_def

text \<open>
  C1, on the code: the configuration names the extra directory \<^verbatim>\<open>/extra\<close>, whose three
  descriptors are registered during the run and are in the registry when it ends. The
  listing and the execute run nevertheless see the target \<^verbatim>\<open>trash\<close> alone: both iterate
  over \<^verbatim>\<open>all_targets\<close>, the copy of the registry taken on the first line of \<^verbatim>\<open>cli\<close>,
  before the extra directories are registered.
\<close>

theorem extra_targets_not_iterated:
  "cli ex_env (ex_options\<lparr>list_targets := True\<rparr>) ex_config ex_state =
     ([EchoInfo (FoundTargets 1), LogDebug (Registering ''brew''), LogDebug (Registering ''odd''),
       LogDebug (Registering ''bad''), EchoWarn (ListEntry ''trash'')],
      ex_state\<lparr>TARGETS := [(''trash'', YamlInit ''/builtins/trash.yaml''),
                             (''brew'', YamlInit ''/extra/brew.yaml''),
                             (''odd'', YamlInit ''/extra/odd.yaml''),
                             (''bad'', YamlInit ''/extra/bad.yaml'')]\<rparr>,
      Inr ())
   \<and> cli ex_env ex_options ex_config ex_state =
     ([EchoInfo (FoundTargets 1), LogDebug (Registering ''brew''), LogDebug (Registering ''odd''),
       LogDebug (Registering ''bad''), DiskUsage, EchoInfo (Cleaning ''trash''),
       Instantiate ''trash'', Invoke ''trash'', DiskUsage, EchoInfo CleanupComplete,
       EchoInfo (Freed 60)],
      ex_state\<lparr>TARGETS := [(''trash'', YamlInit ''/builtins/trash.yaml''),
                             (''brew'', YamlInit ''/extra/brew.yaml''),
                             (''odd'', YamlInit ''/extra/odd.yaml''),
                             (''bad'', YamlInit ''/extra/bad.yaml'')],
                 heap := [[(''targets_path'', PSeq [PStr ''/extra''])],
                          [(''args'', PSeq [PStr ''~/.Trash'']), (''keep'', PStr ''yes'')], []],
                 world := 160\<rparr>,
      Inr ())"
  by (simp add: run_defs ex_defs)

lemma process_target_describes:
  assumes "dry_run opts" and "n \<in> set tn"
    and "call_initializer env ini (map_of config n) (update opts) (\<not> quiet opts) s
           = (evi, s', Inr (RInst t))"
    and "derives_Target (cls t)"
  shows "process_target env opts config tn (n, ini) s =
    (log_message (\<not> quiet opts) (Cleaning n) @ [Instantiate n] @ evi @ [Describe n]
       @ (case describe env t (heap s') (world s') of
            Inl e \<Rightarrow> []
          | Inr d \<Rightarrow> EchoWarn (Description d) # (if quiet opts then [Sleep] else [])),
     s', case describe env t (heap s') (world s') of Inl e \<Rightarrow> Raise e | Inr d \<Rightarrow> Next)"
  using assms by (cases "describe env t (heap s') (world s')") (simp_all add: process_target_def)

lemma process_target_dry_markers:
  assumes "dry_run opts" and "fst item \<in> set tn" and "yields_target env (snd item)"
    and "process_target env opts config tn item s = (ev, s', fl)"
  shows "described ev = [fst item] \<and> instantiated ev = [fst item]
    \<and> ((\<exists>e. fl = Raise e) \<or> fl = Next)"
proof -
  obtain hp t where ci: "call_initializer env (snd item) (map_of config (fst item))
      (update opts) (\<not> quiet opts) s = ([], s\<lparr>heap := hp\<rparr>, Inr (RInst t))"
    and t: "derives_Target (cls t)"
    using yields_target_call [OF assms(3)] by blast
  have "process_target env opts config tn (fst item, snd item) s = (ev, s', fl)"
    using assms(4) by simp
  then show ?thesis
    unfolding process_target_describes [OF assms(1,2) ci t]
    by (cases "describe env t (heap (s\<lparr>heap := hp\<rparr>)) (world (s\<lparr>heap := hp\<rparr>))")
       (auto simp: described_append instantiated_append log_message_calls)
qed

lemma target_loop_dry_markers:
  assumes "dry_run opts"
    and "\<forall>item \<in> set xs. fst item \<in> set tn \<longrightarrow> yields_target env (snd item)"
    and "target_loop env opts config tn xs s = (ev, s', fl)"
  shows "described ev = instantiated ev
    \<and> (fl = Next \<longrightarrow> described ev = filter (\<lambda>n. n \<in> set tn) (map fst xs))"
  using assms(2,3)
proof (induction xs arbitrary: s ev s' fl)
  case Nil
  then show ?case by simp
next
  case (Cons item rest)
  obtain ev1 s1 fl1 where pt: "process_target env opts config tn item s = (ev1, s1, fl1)"
    by (metis prod_cases3)
  show ?case
  proof (cases "fst item \<in> set tn")
    case False
    then have tl: "target_loop env opts config tn rest s = (ev, s', fl)"
      using Cons.prems(2) by (simp add: process_target_unselected)
    have rest: "\<forall>item \<in> set rest. fst item \<in> set tn \<longrightarrow> yields_target env (snd item)"
      using Cons.prems(1) by simp
    have flt: "filter (\<lambda>n. n \<in> set tn) (map fst (item # rest))
        = filter (\<lambda>n. n \<in> set tn) (map fst rest)"
      using False by simp
    show ?thesis
      unfolding flt by (rule Cons.IH [OF rest tl])
  next
    case True
    then have y: "yields_target env (snd item)"
      using Cons.prems(1) by simp
    note m = process_target_dry_markers [OF assms(1) True y pt]
    show ?thesis
    proof (cases fl1)
      case Next
      obtain ev2 s2 fl2 where tl: "target_loop env opts config tn rest s1 = (ev2, s2, fl2)"
        by (metis prod_cases3)
      have res: "ev = ev1 @ ev2" "fl = fl2"
        using Cons.prems(2) pt Next tl by simp_all
      have rest: "\<forall>item \<in> set rest. fst item \<in> set tn \<longrightarrow> yields_target env (snd item)"
        using Cons.prems(1) by simp
      note ih = Cons.IH [OF rest tl]
      have one: "described (ev1 @ ev2) = instantiated (ev1 @ ev2)"
        using m conjunct1 [OF ih] by (simp add: described_append instantiated_append)
      have two: "described (ev1 @ ev2) = filter (\<lambda>n. n \<in> set tn) (map fst (item # rest))"
        if "fl2 = Next"
        using m True conjunct2 [OF ih] that by (simp add: described_append)
      show ?thesis
        unfolding res using one two by blast
    next
      case Break
      then show ?thesis using m by simp
    next
      case (Raise e)
      then have "ev = ev1" "fl = Raise e"
        using Cons.prems(2) pt by simp_all
      then show ?thesis using m by simp
    qed
  qed
qed

text \<open>
  C3 fails as stated: in a dry run over the one registered target, \<^verbatim>\<open>get_disk_usage\<close> is
  called before the loop and again after it; only the report of the freed space is left
  out.
\<close>

theorem dry_run_measures_disk_usage:
  "cli ex_env (ex_options\<lparr>dry_run := True\<rparr>) [] ex_state =
     ([EchoInfo (FoundTargets 1), DiskUsage, EchoInfo (Cleaning ''trash''), Instantiate ''trash'',
       Describe ''trash'', EchoWarn (Description ''rm ~/.Trash''), DiskUsage],
      ex_state\<lparr>heap := heap ex_state @ [[(''args'', PSeq [PStr ''~/.Trash''])]]\<rparr>, Inr ())"
  by (simp add: run_defs ex_defs)

text \<open>
  C3, amended. Take a run that is not a listing and in which the registration of the
  extra targets raises nothing, so that the target loop is reached. Dry or not, the Runner
  measures the free disk space once immediately before the loop and, unless an exception
  leaves the loop, once immediately after it; neither the registration nor the loop
  measures it. In dry-run mode, for every selected target whose initializer returns a
  Target, the Runner calls \<^verbatim>\<open>describe()\<close> on that instance and displays the text it returns
  (so that, when every selected initializer returns a Target, the targets described are
  the targets instantiated, and all the selected ones if no exception leaves the loop); no
  target is invoked, the world is left as it was, and no freed-space total is reported. In
  execute mode \<^verbatim>\<open>describe()\<close> is never called, and unless the run is quiet the difference
  of the two measures is reported as the space freed.
\<close>

theorem cli_disk_usage:
  assumes "\<not> list_targets opts"
    and "register_extra_targets env opts config s = (ev1, s1, Inr ())"
    and "tn = (if targets opts \<noteq> [] then targets opts
               else map fst (dict_copy env (iter_targets s)))"
    and "target_loop env opts config tn (dict_copy env (iter_targets s)) s1 = (ev2, s2, fl)"
  shows "fst (cli env opts config s) =
           log_message (\<not> quiet opts) (FoundTargets (length (iter_targets s))) @ ev1
             @ [DiskUsage] @ ev2
             @ (case fl of
                  Raise e \<Rightarrow> []
                | _ \<Rightarrow> DiskUsage #
                    (if dry_run opts \<or> quiet opts then []
                     else [EchoInfo CleanupComplete,
                           EchoInfo (Freed (get_disk_usage env (world s2)
                                            - get_disk_usage env (world s1)))]))
       \<and> DiskUsage \<notin> set ev1 \<and> DiskUsage \<notin> set ev2
       \<and> (dry_run opts \<longrightarrow>
            invoked ev2 = [] \<and> world s2 = world s
            \<and> (\<forall>n ini s' evi s'' t.
                  n \<in> set tn
                  \<and> call_initializer env ini (map_of config n) (update opts) (\<not> quiet opts) s'
                      = (evi, s'', Inr (RInst t))
                  \<and> derives_Target (cls t) \<longrightarrow>
                  process_target env opts config tn (n, ini) s' =
                    (log_message (\<not> quiet opts) (Cleaning n) @ [Instantiate n] @ evi
                       @ [Describe n]
                       @ (case describe env t (heap s'') (world s'') of
                            Inl e \<Rightarrow> []
                          | Inr d \<Rightarrow>
                              EchoWarn (Description d) # (if quiet opts then [Sleep] else [])),
                     s'',
                     case describe env t (heap s'') (world s'') of
                       Inl e \<Rightarrow> Raise e
                     | Inr d \<Rightarrow> Next))
            \<and> ((\<forall>item \<in> set (iter_targets s).
                    fst item \<in> set tn \<longrightarrow> yields_target env (snd item)) \<longrightarrow>
                 described ev2 = instantiated ev2
                 \<and> (fl = Next \<longrightarrow>
                      described ev2
                        = filter (\<lambda>n. n \<in> set tn) (map fst (dict_copy env (iter_targets s))))))
       \<and> (\<not> dry_run opts \<longrightarrow> described ev2 = [])"
proof -
  note re = register_extra_targets_frame [OF assms(2)]
  note d1 = log_only_trace [OF conjunct2 [OF conjunct2 [OF re]]]
  note fr = target_loop_frame [OF assms(4)]
  have run: "fst (cli env opts config s) =
      log_message (\<not> quiet opts) (FoundTargets (length (iter_targets s))) @ ev1
        @ [DiskUsage] @ ev2
        @ (case fl of
             Raise e \<Rightarrow> []
           | _ \<Rightarrow> DiskUsage #
               (if dry_run opts \<or> quiet opts then []
                else [EchoInfo CleanupComplete,
                      EchoInfo (Freed (get_disk_usage env (world s2)
                                       - get_disk_usage env (world s1)))]))"
    using cli_run [OF assms(1,2) assms(4) [unfolded assms(3)]] by simp
  have step: "process_target env opts config tn (n, ini) s' =
      (log_message (\<not> quiet opts) (Cleaning n) @ [Instantiate n] @ evi @ [Describe n]
         @ (case describe env t (heap s'') (world s'') of
              Inl e \<Rightarrow> []
            | Inr d \<Rightarrow> EchoWarn (Description d) # (if quiet opts then [Sleep] else [])),
       s'', case describe env t (heap s'') (world s'') of Inl e \<Rightarrow> Raise e | Inr d \<Rightarrow> Next)"
    if "dry_run opts" and "n \<in> set tn
        \<and> call_initializer env ini (map_of config n) (update opts) (\<not> quiet opts) s'
            = (evi, s'', Inr (RInst t))
        \<and> derives_Target (cls t)"
    for n ini s' evi s'' t
    using that by (intro process_target_describes) simp_all
  have mark: "described ev2 = instantiated ev2
      \<and> (fl = Next \<longrightarrow>
           described ev2 = filter (\<lambda>n. n \<in> set tn) (map fst (dict_copy env (iter_targets s))))"
    if "dry_run opts"
      and "\<forall>item \<in> set (iter_targets s). fst item \<in> set tn \<longrightarrow> yields_target env (snd item)"
  proof -
    have "\<forall>item \<in> set (dict_copy env (iter_targets s)).
        fst item \<in> set tn \<longrightarrow> yields_target env (snd item)"
      using that(2) by (simp add: dict_copy_items)
    from target_loop_dry_markers [OF that(1) this assms(4)] show ?thesis .
  qed
  have dry: "invoked ev2 = [] \<and> world s2 = world s" if "dry_run opts"
    using that fr re by simp
  have exe: "described ev2 = []" if "\<not> dry_run opts"
    using that fr by simp
  have du: "DiskUsage \<notin> set ev1 \<and> DiskUsage \<notin> set ev2"
    using d1 fr by simp
  show ?thesis
    using run du dry step mark exe by blast
qed

text \<open>
  Witness for C3: an execute run and a dry run over the one registered directory target,
  which frees 60 MB when it is invoked.
\<close>

theorem cli_disk_usage_witness:
  "\<not> list_targets ex_options
   \<and> register_extra_targets ex_env ex_options [] ex_state = ([], ex_state, Inr ())
   \<and> fst (cli ex_env ex_options [] ex_state) =
       [EchoInfo (FoundTargets 1), DiskUsage, EchoInfo (Cleaning ''trash''), Instantiate ''trash'',
        Invoke ''trash'', DiskUsage, EchoInfo CleanupComplete, EchoInfo (Freed 60)]
   \<and> fst (cli ex_env (ex_options\<lparr>dry_run := True\<rparr>) [] ex_state) =
       [EchoInfo (FoundTargets 1), DiskUsage, EchoInfo (Cleaning ''trash''), Instantiate ''trash'',
        Describe ''trash'', EchoWarn (Description ''rm ~/.Trash''), DiskUsage]"
proof -
  let ?dry = "ex_options\<lparr>dry_run := True\<rparr>"
  let ?all = "dict_copy ex_env (iter_targets ex_state)"
  have a: "\<not> list_targets ex_options" "\<not> list_targets ?dry"
    by (simp_all add: ex_options_def)
  have b: "register_extra_targets ex_env ex_options [] ex_state = ([], ex_state, Inr ())"
    "register_extra_targets ex_env ?dry [] ex_state = ([], ex_state, Inr ())"
    by (simp_all add: run_defs ex_defs)
  have tn: "[''trash''] = (if targets ex_options \<noteq> [] then targets ex_options else map fst ?all)"
    "[''trash''] = (if targets ?dry \<noteq> [] then targets ?dry else map fst ?all)"
    by (simp_all add: run_defs ex_defs)
  have c: "target_loop ex_env ex_options [] [''trash''] ?all ex_state =
           ([EchoInfo (Cleaning ''trash''), Instantiate ''trash'', Invoke ''trash''],
            ex_state\<lparr>heap := heap ex_state @ [[(''args'', PSeq [PStr ''~/.Trash''])]], world := 160\<rparr>,
            Next)"
    by (simp add: run_defs ex_defs)
  have d: "target_loop ex_env ?dry [] [''trash''] ?all ex_state =
           ([EchoInfo (Cleaning ''trash''), Instantiate ''trash'', Describe ''trash'',
             EchoWarn (Description ''rm ~/.Trash'')],
            ex_state\<lparr>heap := heap ex_state @ [[(''args'', PSeq [PStr ''~/.Trash''])]]\<rparr>, Next)"
    by (simp add: run_defs ex_defs)
  have r1: "fst (cli ex_env ex_options [] ex_state) =
       [EchoInfo (FoundTargets 1), DiskUsage, EchoInfo (Cleaning ''trash''), Instantiate ''trash'',
        Invoke ''trash'', DiskUsage, EchoInfo CleanupComplete, EchoInfo (Freed 60)]"
    using cli_disk_usage [OF a(1) b(1) tn(1) c]
    by (simp add: ex_defs log_message_def iter_targets_def)
  have r2: "fst (cli ex_env ?dry [] ex_state) =
       [EchoInfo (FoundTargets 1), DiskUsage, EchoInfo (Cleaning ''trash''), Instantiate ''trash'',
        Describe ''trash'', EchoWarn (Description ''rm ~/.Trash''), DiskUsage]"
    using cli_disk_usage [OF a(2) b(2) tn(2) d]
    by (simp add: ex_defs log_message_def iter_targets_def)
  show ?thesis
    using a(1) b(1) r1 r2 by (intro conjI)
qed

lemma cli_selection_cong:
  assumes "ts \<noteq> []" and "ts' \<noteq> []"
    and "\<forall>m \<in> fst ` set (iter_targets s). m \<in> set ts' \<longleftrightarrow> m \<in> set ts"
  shows "cli env (opts\<lparr>targets := ts'\<rparr>) config s = cli env (opts\<lparr>targets := ts\<rparr>) config s"
proof -
  let ?o = "opts\<lparr>targets := ts\<rparr>" and ?o' = "opts\<lparr>targets := ts'\<rparr>"
  have re: "register_extra_targets env ?o' config s = register_extra_targets env ?o config s"
    by (rule register_extra_targets_opts_cong) simp
  obtain ev1 s1 r where r1: "register_extra_targets env ?o config s = (ev1, s1, r)"
    by (metis prod_cases3)
  let ?all = "dict_copy env (iter_targets s)"
  have nm: "\<forall>m \<in> fst ` set ?all. m \<in> set ts' \<longleftrightarrow> m \<in> set ts"
    using assms(3) by (simp add: dict_copy_items)
  have tl: "target_loop env ?o' config ts' ?all s1 = target_loop env ?o config ts ?all s1"
    using target_loop_opts_cong [of ?o' ?o env config ts' ?all s1]
      target_loop_names_cong [OF nm, of env ?o config s1]
    by simp
  obtain ev2 s2 fl where t2: "target_loop env ?o config ts ?all s1 = (ev2, s2, fl)"
    by (metis prod_cases3)
  show ?thesis
  proof (cases r)
    case (Inl e)
    show ?thesis
      using cli_aborted [OF r1 [unfolded Inl]] cli_aborted [OF re [unfolded r1 Inl]] by simp
  next
    case (Inr u)
    show ?thesis
    proof (cases "list_targets opts")
      case True
      then show ?thesis
        using cli_listing [OF _ r1 [unfolded Inr]] cli_listing [OF _ re [unfolded r1 Inr]] by simp
    next
      case False
      have a: "\<not> list_targets ?o" "\<not> list_targets ?o'" using False by simp_all
      have b: "target_loop env ?o config (if targets ?o \<noteq> [] then targets ?o
                 else map fst ?all) ?all s1 = (ev2, s2, fl)"
        using t2 assms(1) by simp
      have b': "target_loop env ?o' config (if targets ?o' \<noteq> [] then targets ?o'
                 else map fst ?all) ?all s1 = (ev2, s2, fl)"
        using t2 tl assms(2) by simp
      show ?thesis
        using cli_run [OF a(1) r1 [unfolded Inr] b] cli_run [OF a(2) re [unfolded r1 Inr] b']
        by simp
    qed
  qed
qed

text \<open>
  C8 fails as stated: the name \<^verbatim>\<open>nope\<close> is requested and is not in the registry; the run
  logs nothing about it. Its whole trace is the count of registered targets, the two
  measures and the report.
\<close>

theorem unregistered_name_not_logged:
  "map_of (TARGETS ex_state) ''nope'' = None
   \<and> cli ex_env (ex_options\<lparr>targets := [''nope'']\<rparr>) [] ex_state =
       ([EchoInfo (FoundTargets 1), DiskUsage, DiskUsage, EchoInfo CleanupComplete,
         EchoInfo (Freed 0)], ex_state, Inr ())"
  by (simp add: run_defs ex_defs)

text \<open>
  C8, amended. A requested name that is not in the registry is ignored without a word:
  the run with the name among the requested ones is the run without it, event for event,
  as long as another name is requested; when no requested name is registered, no target is
  processed and the run ends normally; and in no run is the name instantiated or invoked,
  or a resolution failure logged for it.
\<close>

theorem unregistered_name_ignored:
  assumes "n \<notin> fst ` set (iter_targets s)"
  shows "(ts \<noteq> [] \<and> set ts' = insert n (set ts) \<longrightarrow>
            cli env (opts\<lparr>targets := ts'\<rparr>) config s = cli env (opts\<lparr>targets := ts\<rparr>) config s)
       \<and> (targets opts \<noteq> [] \<and> set (targets opts) \<inter> fst ` set (iter_targets s) = {}
            \<and> \<not> list_targets opts
            \<and> register_extra_targets env opts config s = (ev1, s1, Inr ()) \<longrightarrow>
            cli env opts config s =
              (log_message (\<not> quiet opts) (FoundTargets (length (iter_targets s))) @ ev1
                 @ DiskUsage # DiskUsage #
                   (if dry_run opts \<or> quiet opts then []
                    else [EchoInfo CleanupComplete, EchoInfo (Freed 0)]),
               s1, Inr ()))
       \<and> n \<notin> set (instantiated (fst (cli env opts config s)))
       \<and> n \<notin> set (invoked (fst (cli env opts config s)))
       \<and> LogError (NoTargetFound n) \<notin> set (fst (cli env opts config s))"
proof (intro conjI impI)
  assume a: "ts \<noteq> [] \<and> set ts' = insert n (set ts)"
  then have "ts' \<noteq> []" by auto
  moreover have "\<forall>m \<in> fst ` set (iter_targets s). m \<in> set ts' \<longleftrightarrow> m \<in> set ts"
    using a assms by auto
  ultimately show "cli env (opts\<lparr>targets := ts'\<rparr>) config s = cli env (opts\<lparr>targets := ts\<rparr>) config s"
    using a by (intro cli_selection_cong) simp_all
next
  assume a: "targets opts \<noteq> [] \<and> set (targets opts) \<inter> fst ` set (iter_targets s) = {}
    \<and> \<not> list_targets opts \<and> register_extra_targets env opts config s = (ev1, s1, Inr ())"
  have "\<forall>m \<in> fst ` set (dict_copy env (iter_targets s)). m \<notin> set (targets opts)"
    using a by (auto simp: dict_copy_items)
  then have tl: "target_loop env opts config
      (if targets opts \<noteq> [] then targets opts else map fst (dict_copy env (iter_targets s)))
      (dict_copy env (iter_targets s)) s1 = ([], s1, Next)"
    using a by (simp add: target_loop_unselected)
  show "cli env opts config s =
      (log_message (\<not> quiet opts) (FoundTargets (length (iter_targets s))) @ ev1
         @ DiskUsage # DiskUsage #
           (if dry_run opts \<or> quiet opts then []
            else [EchoInfo CleanupComplete, EchoInfo (Freed 0)]),
       s1, Inr ())"
    using a cli_run [OF _ _ tl, of ev1 "()"] by simp
next
  show "n \<notin> set (instantiated (fst (cli env opts config s)))"
    using assms cli_trace_frame [of env opts config s n] by auto
  show "n \<notin> set (invoked (fst (cli env opts config s)))"
    using assms cli_trace_frame [of env opts config s n] by auto
  show "LogError (NoTargetFound n) \<notin> set (fst (cli env opts config s))"
    using cli_trace_frame [of env opts config s n] by simp
qed

text \<open>Witness for C8: \<^verbatim>\<open>nope\<close> requested next to the registered \<^verbatim>\<open>trash\<close>.\<close>

theorem unregistered_name_ignored_witness:
  "''nope'' \<notin> fst ` set (iter_targets ex_state)
   \<and> [''trash''] \<noteq> [] \<and> set [''trash'', ''nope''] = insert ''nope'' (set [''trash''])
   \<and> cli ex_env (ex_options\<lparr>targets := [''trash'', ''nope'']\<rparr>) [] ex_state =
       cli ex_env (ex_options\<lparr>targets := [''trash'']\<rparr>) [] ex_state
   \<and> LogError (NoTargetFound ''nope'') \<notin>
       set (fst (cli ex_env (ex_options\<lparr>targets := [''trash'', ''nope'']\<rparr>) [] ex_state))"
proof -
  have a: "''nope'' \<notin> fst ` set (iter_targets ex_state)"
    by (simp add: iter_targets_def ex_state_def)
  have b1: "[''trash''] \<noteq> []"
    by simp
  have b2: "set [''trash'', ''nope''] = insert ''nope'' (set [''trash''])"
    by auto
  have c1: "cli ex_env (ex_options\<lparr>targets := [''trash'', ''nope'']\<rparr>) [] ex_state =
      cli ex_env (ex_options\<lparr>targets := [''trash'']\<rparr>) [] ex_state"
    using unregistered_name_ignored [OF a, where ts = "[''trash'']"
        and ts' = "[''trash'', ''nope'']" and env = ex_env and config = "[]" and opts = ex_options]
      b1 b2
    by blast
  have c2: "LogError (NoTargetFound ''nope'') \<notin>
      set (fst (cli ex_env (ex_options\<lparr>targets := [''trash'', ''nope'']\<rparr>) [] ex_state))"
    using unregistered_name_ignored [OF a, where env = ex_env and config = "[]"
        and opts = "ex_options\<lparr>targets := [''trash'', ''nope'']\<rparr>"]
    by blast
  show ?thesis
    using a b1 b2 c1 c2 by (intro conjI)
qed

lemma target_loop_Cons_events:
  "\<exists>ev'. fst (target_loop env opts config tn (item # rest) s)
           = fst (process_target env opts config tn item s) @ ev'"
  by (auto split: prod.splits flow.splits)

lemma process_target_failure:
  assumes "\<not> dry_run opts" and "A \<in> set tn"
    and "call_initializer env iA (map_of config A) (update opts) (\<not> quiet opts) s
           = (evA, sA, Inr (RInst tA))"
    and "derives_Target (cls tA)"
    and "invoke env tA (heap sA) (world sA) = (Inl ex, w)"
  shows "process_target env opts config tn (A, iA) s =
    (log_message (\<not> quiet opts) (Cleaning A) @ [Instantiate A] @ evA
       @ [Invoke A, LogError (CouldNotCleanup A ex)]
       @ (if stop_on_error opts \<or> \<not> quiet opts then [] else [Sleep]),
     sA\<lparr>world := w\<rparr>, if stop_on_error opts then Break else Next)"
  using assms by (simp add: process_target_def)

lemma process_target_invokes:
  assumes "\<not> dry_run opts" and "B \<in> set tn"
    and "call_initializer env iB (map_of config B) (update opts) (\<not> quiet opts) s
           = (evB, sB, Inr (RInst tB))"
    and "derives_Target (cls tB)"
  shows "B \<in> set (invoked (fst (process_target env opts config tn (B, iB) s)))"
  using assms
  by (cases "invoke env tB (heap sB) (world sB)")
     (auto simp: process_target_def Let_def invoked_append split: sum.splits)

text \<open>
  C4. In an execute run, let the loop reach a selected target \<open>A\<close> whose initializer
  returns a Target and whose invocation raises, and let \<open>B\<close> be another selected target
  later in the iteration order. With \<^verbatim>\<open>stop_on_error\<close> set, the loop ends right after the
  error of \<open>A\<close> is reported, and \<open>B\<close> is neither instantiated nor invoked. With
  \<^verbatim>\<open>stop_on_error\<close> unset, the loop goes on after \<open>A\<close>, and \<open>B\<close> is invoked as soon as
  the loop gets through the targets between the two and the initializer of \<open>B\<close> returns
  a Target.
\<close>

theorem stop_on_error_halts_loop:
  assumes "\<not> dry_run opts" and "A \<in> set tn" and "B \<in> set tn" and "A \<noteq> B"
    and "call_initializer env iA (map_of config A) (update opts) (\<not> quiet opts) s
           = (evA, sA, Inr (RInst tA))"
    and "derives_Target (cls tA)"
    and "invoke env tA (heap sA) (world sA) = (Inl ex, w)"
  shows "(stop_on_error opts \<longrightarrow>
            target_loop env opts config tn ((A, iA) # mid @ (B, iB) # post) s =
              (log_message (\<not> quiet opts) (Cleaning A) @ [Instantiate A] @ evA
                 @ [Invoke A, LogError (CouldNotCleanup A ex)],
               sA\<lparr>world := w\<rparr>, Break)
            \<and> B \<notin> set (instantiated
                  (fst (target_loop env opts config tn ((A, iA) # mid @ (B, iB) # post) s)))
            \<and> B \<notin> set (invoked
                  (fst (target_loop env opts config tn ((A, iA) # mid @ (B, iB) # post) s))))
       \<and> (\<not> stop_on_error opts
            \<and> target_loop env opts config tn mid (sA\<lparr>world := w\<rparr>) = (evm, sm, Next)
            \<and> call_initializer env iB (map_of config B) (update opts) (\<not> quiet opts) sm
                = (evB, sB, Inr (RInst tB))
            \<and> derives_Target (cls tB) \<longrightarrow>
            B \<in> set (invoked
                  (fst (target_loop env opts config tn ((A, iA) # mid @ (B, iB) # post) s))))"
proof (intro conjI impI)
  note pt = process_target_failure [OF assms(1,2,5,6,7)]
  note fr = call_initializer_frame [OF assms(5)]
  {
    assume stop: "stop_on_error opts"
    show tl: "target_loop env opts config tn ((A, iA) # mid @ (B, iB) # post) s =
        (log_message (\<not> quiet opts) (Cleaning A) @ [Instantiate A] @ evA
           @ [Invoke A, LogError (CouldNotCleanup A ex)],
         sA\<lparr>world := w\<rparr>, Break)"
      using stop by (simp add: pt)
    show "B \<notin> set (instantiated
        (fst (target_loop env opts config tn ((A, iA) # mid @ (B, iB) # post) s)))"
      unfolding tl using assms(4) fr(3)
      by (simp add: instantiated_append log_message_calls)
    show "B \<notin> set (invoked
        (fst (target_loop env opts config tn ((A, iA) # mid @ (B, iB) # post) s)))"
      unfolding tl using assms(4) fr(5)
      by (simp add: invoked_append log_message_calls)
  }
  {
    assume a: "\<not> stop_on_error opts
        \<and> target_loop env opts config tn mid (sA\<lparr>world := w\<rparr>) = (evm, sm, Next)
        \<and> call_initializer env iB (map_of config B) (update opts) (\<not> quiet opts) sm
            = (evB, sB, Inr (RInst tB))
        \<and> derives_Target (cls tB)"
    then have ci: "call_initializer env iB (map_of config B) (update opts) (\<not> quiet opts) sm
        = (evB, sB, Inr (RInst tB))" and tB: "derives_Target (cls tB)"
      by simp_all
    obtain ev' where ev': "fst (target_loop env opts config tn ((B, iB) # post) sm)
        = fst (process_target env opts config tn (B, iB) sm) @ ev'"
      using target_loop_Cons_events by blast
    have "B \<in> set (invoked (fst (target_loop env opts config tn ((B, iB) # post) sm)))"
      unfolding ev' using process_target_invokes [OF assms(1,3) ci tB]
      by (simp add: invoked_append)
    moreover have "\<exists>pre. fst (target_loop env opts config tn ((A, iA) # mid @ (B, iB) # post) s)
        = pre @ fst (target_loop env opts config tn ((B, iB) # post) sm)"
      using a by (simp add: pt target_loop_append split: prod.splits)
    ultimately show "B \<in> set (invoked
        (fst (target_loop env opts config tn ((A, iA) # mid @ (B, iB) # post) s)))"
      by (auto simp: invoked_append)
  }
qed

text \<open>
  Witness for C4: the shell-command target \<^verbatim>\<open>brew\<close> fails and is followed by the
  directory target \<^verbatim>\<open>trash\<close>, once with \<^verbatim>\<open>stop_on_error\<close> and once without.
\<close>

theorem stop_on_error_halts_loop_witness:
  "\<not> dry_run ex_options
   \<and> invoke ex_env \<lparr>cls = YamlShellCommandTarget, config_ref = Some 3, update_flag = False,
                      verbose_flag = True\<rparr>
         (heap ex_state3 @ [[(''args'', PStr ''brew cleanup'')]]) 100
       = (Inl (RuntimeError ''exit 1''), 100)
   \<and> target_loop ex_env (ex_options\<lparr>stop_on_error := True\<rparr>) [] [''brew'', ''trash'']
         [(''brew'', YamlInit ''/extra/brew.yaml''), (''trash'', YamlInit ''/builtins/trash.yaml'')]
         ex_state3
       = ([EchoInfo (Cleaning ''brew''), Instantiate ''brew'', Invoke ''brew'',
           LogError (CouldNotCleanup ''brew'' (RuntimeError ''exit 1''))],
          ex_state3\<lparr>heap := heap ex_state3 @ [[(''args'', PStr ''brew cleanup'')]], world := 100\<rparr>,
          Break)
   \<and> ''trash'' \<in> set (invoked (fst (target_loop ex_env ex_options [] [''brew'', ''trash'']
         [(''brew'', YamlInit ''/extra/brew.yaml''), (''trash'', YamlInit ''/builtins/trash.yaml'')]
         ex_state3)))"
proof -
  let ?tA = "\<lparr>cls = YamlShellCommandTarget, config_ref = Some 3, update_flag = False,
              verbose_flag = True\<rparr>"
  let ?tB = "\<lparr>cls = YamlDirTarget, config_ref = Some 4, update_flag = False,
              verbose_flag = True\<rparr>"
  let ?sA = "ex_state3\<lparr>heap := heap ex_state3 @ [[(''args'', PStr ''brew cleanup'')]]\<rparr>"
  let ?sB = "?sA\<lparr>world := 100, heap := heap ?sA @ [[(''args'', PSeq [PStr ''~/.Trash''])]]\<rparr>"
  let ?stop = "ex_options\<lparr>stop_on_error := True\<rparr>"
  have dry: "\<not> dry_run ex_options" "\<not> dry_run ?stop"
    by (simp_all add: ex_defs)
  have sel: "''brew'' \<in> set [''brew'', ''trash'']" "''trash'' \<in> set [''brew'', ''trash'']"
      "''brew'' \<noteq> ''trash''"
    by simp_all
  have ciA: "call_initializer ex_env (YamlInit ''/extra/brew.yaml'') (map_of [] ''brew'')
      (update ex_options) (\<not> quiet ex_options) ex_state3 = ([], ?sA, Inr (RInst ?tA))"
    by (simp add: run_defs ex_defs)
  have ciA': "call_initializer ex_env (YamlInit ''/extra/brew.yaml'') (map_of [] ''brew'')
      (update ?stop) (\<not> quiet ?stop) ex_state3 = ([], ?sA, Inr (RInst ?tA))"
    by (simp add: run_defs ex_defs)
  have tA: "derives_Target (cls ?tA)"
    by simp
  have inv: "invoke ex_env ?tA (heap ?sA) (world ?sA) = (Inl (RuntimeError ''exit 1''), 100)"
    by (simp add: ex_defs)
  have go: "\<not> stop_on_error ex_options
      \<and> target_loop ex_env ex_options [] [''brew'', ''trash''] [] (?sA\<lparr>world := 100\<rparr>)
          = ([], ?sA\<lparr>world := 100\<rparr>, Next)
      \<and> call_initializer ex_env (YamlInit ''/builtins/trash.yaml'') (map_of [] ''trash'')
          (update ex_options) (\<not> quiet ex_options) (?sA\<lparr>world := 100\<rparr>)
          = ([], ?sB, Inr (RInst ?tB))
      \<and> derives_Target (cls ?tB)"
    by (simp add: run_defs ex_defs)
  have stop: "stop_on_error ?stop"
    by simp
  note t1 = stop_on_error_halts_loop [OF dry(2) sel ciA' tA inv,
      where mid = "[]" and iB = "YamlInit ''/builtins/trash.yaml''" and post = "[]"]
  note t2 = stop_on_error_halts_loop [OF dry(1) sel ciA tA inv,
      where mid = "[]" and iB = "YamlInit ''/builtins/trash.yaml''" and post = "[]"
        and evm = "[]" and sm = "?sA\<lparr>world := 100\<rparr>" and evB = "[]" and sB = ?sB and tB = ?tB]
  have r1: "target_loop ex_env ?stop [] [''brew'', ''trash'']
         [(''brew'', YamlInit ''/extra/brew.yaml''), (''trash'', YamlInit ''/builtins/trash.yaml'')]
         ex_state3
       = ([EchoInfo (Cleaning ''brew''), Instantiate ''brew'', Invoke ''brew'',
           LogError (CouldNotCleanup ''brew'' (RuntimeError ''exit 1''))],
          ex_state3\<lparr>heap := heap ex_state3 @ [[(''args'', PStr ''brew cleanup'')]], world := 100\<rparr>,
          Break)"
    using t1 stop by (simp add: log_message_def ex_defs)
  have r2: "''trash'' \<in> set (invoked (fst (target_loop ex_env ex_options [] [''brew'', ''trash'']
         [(''brew'', YamlInit ''/extra/brew.yaml''), (''trash'', YamlInit ''/builtins/trash.yaml'')]
         ex_state3)))"
    using t2 go by simp
  have inv': "invoke ex_env ?tA (heap ex_state3 @ [[(''args'', PStr ''brew cleanup'')]]) 100
       = (Inl (RuntimeError ''exit 1''), 100)"
    by (simp add: ex_defs)
  show ?thesis
    using dry(1) inv' r1 r2 by (intro conjI)
qed

lemma target_loop_filter:
  "target_loop env opts config tn xs s =
     target_loop env opts config tn (filter (\<lambda>item. fst item \<in> set tn) xs) s"
  by (induction xs arbitrary: s) (simp_all add: process_target_unselected)

lemma process_target_invoke:
  assumes "\<not> dry_run opts" and "n \<in> set tn"
    and "call_initializer env ini (map_of config n) (update opts) (\<not> quiet opts) s
           = (evi, s', Inr (RInst t))"
    and "derives_Target (cls t)"
    and "invoke env t (heap s') (world s') = (r, w)"
  shows "process_target env opts config tn (n, ini) s =
    (log_message (\<not> quiet opts) (Cleaning n) @ [Instantiate n] @ evi @ [Invoke n]
       @ (case r of Inl ex \<Rightarrow> [LogError (CouldNotCleanup n ex)] | Inr u \<Rightarrow> [])
       @ (if quiet opts \<and> \<not> (stop_on_error opts \<and> isl r) then [Sleep] else []),
     s'\<lparr>world := w\<rparr>, if stop_on_error opts \<and> isl r then Break else Next)"
  using assms by (cases r) (simp_all add: process_target_def)

lemma py27_copy:
  "dict_copy py27_env (iter_targets py27_state) =
     [(''caches'', YamlInit ''/builtins/caches.yaml''),
      (''trash'', YamlInit ''/builtins/trash.yaml''),
      (''anaconda'', YamlInit ''/builtins/anaconda.yaml'')]"
proof -
  have "dict_copy py27_env (iter_targets py27_state) =
      sort_key (\<lambda>item. py27_slot [''trash'', ''anaconda'', ''caches''] (fst item))
        [(''trash'', YamlInit ''/builtins/trash.yaml''),
         (''anaconda'', YamlInit ''/builtins/anaconda.yaml''),
         (''caches'', YamlInit ''/builtins/caches.yaml'')]"
    by (simp add: dict_copy_def py27_env_def iter_targets_def py27_state_def)
  also have "\<dots> = [(''caches'', YamlInit ''/builtins/caches.yaml''),
      (''trash'', YamlInit ''/builtins/trash.yaml''),
      (''anaconda'', YamlInit ''/builtins/anaconda.yaml'')]"
    by code_simp
  finally show ?thesis .
qed

text \<open>
  C7 fails as stated. In CPython 2.7 the registry left by registering \<^verbatim>\<open>trash\<close>,
  \<^verbatim>\<open>caches\<close> and \<^verbatim>\<open>anaconda\<close> iterates over \<^verbatim>\<open>trash\<close>, \<^verbatim>\<open>anaconda\<close>, \<^verbatim>\<open>caches\<close>, but its
  copy \<^verbatim>\<open>all_targets\<close> iterates over \<^verbatim>\<open>caches\<close>, \<^verbatim>\<open>trash\<close>, \<^verbatim>\<open>anaconda\<close>. With \<^verbatim>\<open>trash\<close> and
  \<^verbatim>\<open>caches\<close> selected, the run executes \<^verbatim>\<open>caches\<close> first and \<^verbatim>\<open>trash\<close> second, against the
  order of the registry.
\<close>

theorem run_order_is_not_registry_order:
  "map fst (iter_targets py27_state) = [''trash'', ''anaconda'', ''caches'']
   \<and> map fst (dict_copy py27_env (iter_targets py27_state)) = [''caches'', ''trash'', ''anaconda'']
   \<and> invoked (fst (cli py27_env (ex_options\<lparr>targets := [''trash'', ''caches'']\<rparr>) [] py27_state))
       = [''caches'', ''trash'']"
proof -
  let ?o = "ex_options\<lparr>targets := [''trash'', ''caches'']\<rparr>"
  have a: "map fst (iter_targets py27_state) = [''trash'', ''anaconda'', ''caches'']"
    by (simp add: iter_targets_def py27_state_def)
  have b: "map fst (dict_copy py27_env (iter_targets py27_state))
      = [''caches'', ''trash'', ''anaconda'']"
    by (simp add: py27_copy)
  have nl: "\<not> list_targets ?o"
    by (simp add: ex_defs)
  have re: "register_extra_targets py27_env ?o [] py27_state = ([], py27_state, Inr ())"
    by (simp add: register_extra_targets_def config_targets_path_def ex_defs)
  have tl: "target_loop py27_env ?o []
      (if targets ?o \<noteq> [] then targets ?o
       else map fst (dict_copy py27_env (iter_targets py27_state)))
      (dict_copy py27_env (iter_targets py27_state)) py27_state =
      ([EchoInfo (Cleaning ''caches''), Instantiate ''caches'', Invoke ''caches'',
        EchoInfo (Cleaning ''trash''), Instantiate ''trash'', Invoke ''trash''],
       py27_state\<lparr>heap := heap py27_state @ [[(''args'', PSeq [PStr ''~/Library/Caches''])],
                                                [(''args'', PSeq [PStr ''~/.Trash''])]],
                   world := 220\<rparr>, Next)"
    unfolding py27_copy
    by (simp add: process_target_def call_initializer_def load_target_def log_message_def
        VALID_TARGET_TYPES_def YAML_TYPES_def Let_def py27_env_def py27_state_def ex_defs)
  note run = cli_run [OF nl re tl]
  have c: "invoked (fst (cli py27_env ?o [] py27_state)) = [''caches'', ''trash'']"
    unfolding run by (simp add: log_message_def ex_defs)
  show ?thesis
    using a b c by (intro conjI)
qed

text \<open>
  C7, amended. When the requested names are \<open>A\<close> and \<open>C\<close> and the registry holds exactly the
  names \<open>A\<close>, \<open>B\<close> and \<open>C\<close>, an execute run executes exactly \<open>A\<close> and \<open>C\<close>, in the order in
  which the copy \<^verbatim>\<open>all_targets\<close> of the registry iterates over them, and neither
  instantiates nor invokes \<open>B\<close>. Let \<open>A\<close> be the one the copy comes to first, let the
  initializers of \<open>A\<close> and \<open>C\<close> return Targets and, if \<^verbatim>\<open>stop_on_error\<close> is set, let the
  invocation of \<open>A\<close> not raise. Then the run is: the initializer of \<open>A\<close> is called, the
  instance it returns is invoked, then the same for \<open>C\<close> in the state and the world that
  \<open>A\<close> has left, between the two measures of the disk; nothing else is instantiated or
  invoked.
\<close>

theorem selected_targets_run_in_copy_order:
  assumes "\<not> dry_run opts" and "\<not> list_targets opts"
    and "set (targets opts) = {A, C}" and "A \<noteq> C"
    and "fst ` set (iter_targets s) = {A, B, C}" and "B \<noteq> A" and "B \<noteq> C"
    and "register_extra_targets env opts config s = (ev1, s1, Inr ())"
    and "filter (\<lambda>item. fst item = A \<or> fst item = C) (dict_copy env (iter_targets s))
           = [(A, iA), (C, iC)]"
    and "call_initializer env iA (map_of config A) (update opts) (\<not> quiet opts) s1
           = (evA, sA, Inr (RInst tA))"
    and "derives_Target (cls tA)"
    and "invoke env tA (heap sA) (world sA) = (rA, wA)"
    and "stop_on_error opts \<longrightarrow> \<not> isl rA"
    and "call_initializer env iC (map_of config C) (update opts) (\<not> quiet opts) (sA\<lparr>world := wA\<rparr>)
           = (evC, sC, Inr (RInst tC))"
    and "derives_Target (cls tC)"
    and "invoke env tC (heap sC) (world sC) = (rC, wC)"
  shows "cli env opts config s =
           (log_message (\<not> quiet opts) (FoundTargets (length (iter_targets s))) @ ev1
              @ [DiskUsage]
              @ log_message (\<not> quiet opts) (Cleaning A) @ [Instantiate A] @ evA @ [Invoke A]
              @ (case rA of Inl ex \<Rightarrow> [LogError (CouldNotCleanup A ex)] | Inr u \<Rightarrow> [])
              @ (if quiet opts then [Sleep] else [])
              @ log_message (\<not> quiet opts) (Cleaning C) @ [Instantiate C] @ evC @ [Invoke C]
              @ (case rC of Inl ex \<Rightarrow> [LogError (CouldNotCleanup C ex)] | Inr u \<Rightarrow> [])
              @ (if quiet opts \<and> \<not> (stop_on_error opts \<and> isl rC) then [Sleep] else [])
              @ DiskUsage #
                (if quiet opts then []
                 else [EchoInfo CleanupComplete,
                       EchoInfo (Freed (get_disk_usage env wC - get_disk_usage env (world s1)))]),
            sC\<lparr>world := wC\<rparr>, Inr ())
       \<and> instantiated (fst (cli env opts config s)) = [A, C]
       \<and> invoked (fst (cli env opts config s)) = [A, C]
       \<and> B \<notin> set (instantiated (fst (cli env opts config s)))
       \<and> B \<notin> set (invoked (fst (cli env opts config s)))"
proof -
  let ?all = "dict_copy env (iter_targets s)"
  let ?tn = "if targets opts \<noteq> [] then targets opts else map fst ?all"
  have ne: "targets opts \<noteq> []"
    using assms(3) by auto
  have tn: "?tn = targets opts"
    using ne by simp
  have sel: "A \<in> set (targets opts)" "C \<in> set (targets opts)"
    using assms(3) by simp_all
  have flt: "filter (\<lambda>item. fst item \<in> set (targets opts)) ?all = [(A, iA), (C, iC)]"
    using assms(9) by (simp add: assms(3))
  note pA = process_target_invoke [OF assms(1) sel(1) assms(10,11,12)]
  note pC = process_target_invoke [OF assms(1) sel(2) assms(14,15,16)]
  have nb: "\<not> (stop_on_error opts \<and> isl rA)"
    using assms(13) by simp
  have tl: "target_loop env opts config ?tn ?all s1 =
      (log_message (\<not> quiet opts) (Cleaning A) @ [Instantiate A] @ evA @ [Invoke A]
         @ (case rA of Inl ex \<Rightarrow> [LogError (CouldNotCleanup A ex)] | Inr u \<Rightarrow> [])
         @ (if quiet opts then [Sleep] else [])
         @ log_message (\<not> quiet opts) (Cleaning C) @ [Instantiate C] @ evC @ [Invoke C]
         @ (case rC of Inl ex \<Rightarrow> [LogError (CouldNotCleanup C ex)] | Inr u \<Rightarrow> [])
         @ (if quiet opts \<and> \<not> (stop_on_error opts \<and> isl rC) then [Sleep] else []),
       sC\<lparr>world := wC\<rparr>, if stop_on_error opts \<and> isl rC then Break else Next)"
    unfolding tn target_loop_filter [of env opts config "targets opts" ?all] flt
    using nb by (simp add: pA pC)
  have run: "cli env opts config s =
           (log_message (\<not> quiet opts) (FoundTargets (length (iter_targets s))) @ ev1
              @ [DiskUsage]
              @ log_message (\<not> quiet opts) (Cleaning A) @ [Instantiate A] @ evA @ [Invoke A]
              @ (case rA of Inl ex \<Rightarrow> [LogError (CouldNotCleanup A ex)] | Inr u \<Rightarrow> [])
              @ (if quiet opts then [Sleep] else [])
              @ log_message (\<not> quiet opts) (Cleaning C) @ [Instantiate C] @ evC @ [Invoke C]
              @ (case rC of Inl ex \<Rightarrow> [LogError (CouldNotCleanup C ex)] | Inr u \<Rightarrow> [])
              @ (if quiet opts \<and> \<not> (stop_on_error opts \<and> isl rC) then [Sleep] else [])
              @ DiskUsage #
                (if quiet opts then []
                 else [EchoInfo CleanupComplete,
                       EchoInfo (Freed (get_disk_usage env wC - get_disk_usage env (world s1)))]),
            sC\<lparr>world := wC\<rparr>, Inr ())"
    using assms(1) by (simp add: cli_run [OF assms(2,8) tl])
  note l1 = log_only_trace [OF conjunct2 [OF conjunct2
        [OF register_extra_targets_frame [OF assms(8)]]], of CleanupComplete]
  note fA = call_initializer_frame [OF assms(10)]
  note fC = call_initializer_frame [OF assms(14)]
  have ins: "instantiated (fst (cli env opts config s)) = [A, C]"
    unfolding run using l1 fA(3) fC(3)
    by (cases rA; cases rC) (simp_all add: instantiated_append log_message_calls)
  have inv: "invoked (fst (cli env opts config s)) = [A, C]"
    unfolding run using l1 fA(5) fC(5)
    by (cases rA; cases rC) (simp_all add: invoked_append log_message_calls)
  have nB: "B \<notin> set [A, C]"
    using assms(6,7) by simp
  have nBi: "B \<notin> set (instantiated (fst (cli env opts config s)))"
    using nB unfolding ins .
  have nBv: "B \<notin> set (invoked (fst (cli env opts config s)))"
    using nB unfolding inv .
  show ?thesis
    using run ins inv nBi nBv by (intro conjI)
qed

text \<open>
  Witness for C7: in CPython 2.7, \<^verbatim>\<open>trash\<close> and \<^verbatim>\<open>caches\<close> are requested out of the registry
  \<^verbatim>\<open>trash\<close>, \<^verbatim>\<open>anaconda\<close>, \<^verbatim>\<open>caches\<close>; the copy comes to \<^verbatim>\<open>caches\<close> first.
\<close>

theorem selected_targets_run_in_copy_order_witness:
  "\<not> dry_run (ex_options\<lparr>targets := [''trash'', ''caches'']\<rparr>)
   \<and> set (targets (ex_options\<lparr>targets := [''trash'', ''caches'']\<rparr>)) = {''caches'', ''trash''}
   \<and> fst ` set (iter_targets py27_state) = {''caches'', ''anaconda'', ''trash''}
   \<and> filter (\<lambda>item. fst item = ''caches'' \<or> fst item = ''trash'')
        (dict_copy py27_env (iter_targets py27_state))
       = [(''caches'', YamlInit ''/builtins/caches.yaml''), (''trash'', YamlInit ''/builtins/trash.yaml'')]
   \<and> cli py27_env (ex_options\<lparr>targets := [''trash'', ''caches'']\<rparr>) [] py27_state =
       ([EchoInfo (FoundTargets 3), DiskUsage,
         EchoInfo (Cleaning ''caches''), Instantiate ''caches'', Invoke ''caches'',
         EchoInfo (Cleaning ''trash''), Instantiate ''trash'', Invoke ''trash'',
         DiskUsage, EchoInfo CleanupComplete, EchoInfo (Freed 120)],
        py27_state\<lparr>heap := heap py27_state @ [[(''args'', PSeq [PStr ''~/Library/Caches''])],
                                                 [(''args'', PSeq [PStr ''~/.Trash''])]],
                    world := 220\<rparr>,
        Inr ())
   \<and> ''anaconda'' \<notin> set (instantiated
         (fst (cli py27_env (ex_options\<lparr>targets := [''trash'', ''caches'']\<rparr>) [] py27_state)))"
proof -
  let ?o = "ex_options\<lparr>targets := [''trash'', ''caches'']\<rparr>"
  let ?tA = "\<lparr>cls = YamlDirTarget, config_ref = Some 3, update_flag = False, verbose_flag = True\<rparr>"
  let ?tC = "\<lparr>cls = YamlDirTarget, config_ref = Some 4, update_flag = False, verbose_flag = True\<rparr>"
  let ?sA = "py27_state\<lparr>heap := heap py27_state @ [[(''args'', PSeq [PStr ''~/Library/Caches''])]]\<rparr>"
  let ?sC = "py27_state\<lparr>heap := heap py27_state @ [[(''args'', PSeq [PStr ''~/Library/Caches''])],
                                                     [(''args'', PSeq [PStr ''~/.Trash''])]],
                         world := 160\<rparr>"
  have a: "\<not> dry_run ?o" "\<not> list_targets ?o"
    by (simp_all add: ex_defs)
  have b: "set (targets ?o) = {''caches'', ''trash''}" "''caches'' \<noteq> ''trash''"
    by auto
  have c: "fst ` set (iter_targets py27_state) = {''caches'', ''anaconda'', ''trash''}"
    "''anaconda'' \<noteq> ''caches''" "''anaconda'' \<noteq> ''trash''"
    by (auto simp: iter_targets_def py27_state_def)
  have d: "register_extra_targets py27_env ?o [] py27_state = ([], py27_state, Inr ())"
    by (simp add: register_extra_targets_def config_targets_path_def ex_defs)
  have e: "filter (\<lambda>item. fst item = ''caches'' \<or> fst item = ''trash'')
        (dict_copy py27_env (iter_targets py27_state))
       = [(''caches'', YamlInit ''/builtins/caches.yaml''), (''trash'', YamlInit ''/builtins/trash.yaml'')]"
    by (simp add: py27_copy)
  have iA: "call_initializer py27_env (YamlInit ''/builtins/caches.yaml'') (map_of [] ''caches'')
      (update ?o) (\<not> quiet ?o) py27_state = ([], ?sA, Inr (RInst ?tA))"
    by (simp add: call_initializer_def load_target_def VALID_TARGET_TYPES_def YAML_TYPES_def
        Let_def py27_env_def py27_state_def ex_defs)
  have tA: "derives_Target (cls ?tA)" and tC: "derives_Target (cls ?tC)"
    by simp_all
  have vA: "invoke py27_env ?tA (heap ?sA) (world ?sA) = (Inr (), 160)"
    by (simp add: py27_env_def py27_state_def ex_defs)
  have st: "stop_on_error ?o \<longrightarrow> \<not> isl (Inr () :: exn + unit)"
    by simp
  have iC: "call_initializer py27_env (YamlInit ''/builtins/trash.yaml'') (map_of [] ''trash'')
      (update ?o) (\<not> quiet ?o) (?sA\<lparr>world := 160\<rparr>) = ([], ?sC, Inr (RInst ?tC))"
    by (simp add: call_initializer_def load_target_def VALID_TARGET_TYPES_def YAML_TYPES_def
        Let_def py27_env_def py27_state_def ex_defs)
  have vC: "invoke py27_env ?tC (heap ?sC) (world ?sC) = (Inr (), 220)"
    by (simp add: py27_env_def py27_state_def ex_defs)
  note t = selected_targets_run_in_copy_order [OF a b c d e iA tA vA st iC tC vC]
  have r1: "cli py27_env ?o [] py27_state =
       ([EchoInfo (FoundTargets 3), DiskUsage,
         EchoInfo (Cleaning ''caches''), Instantiate ''caches'', Invoke ''caches'',
         EchoInfo (Cleaning ''trash''), Instantiate ''trash'', Invoke ''trash'',
         DiskUsage, EchoInfo CleanupComplete, EchoInfo (Freed 120)],
        py27_state\<lparr>heap := heap py27_state @ [[(''args'', PSeq [PStr ''~/Library/Caches''])],
                                                 [(''args'', PSeq [PStr ''~/.Trash''])]],
                    world := 220\<rparr>,
        Inr ())"
    unfolding conjunct1 [OF t]
    by (simp add: log_message_def iter_targets_def py27_env_def py27_state_def ex_defs)
  have r2: "''anaconda'' \<notin> set (instantiated (fst (cli py27_env ?o [] py27_state)))"
    using t by blast
  show ?thesis
    using a(1) b(1) c(1) e r1 r2 by (intro conjI)
qed

lemma process_target_describe_raises:
  assumes "dry_run opts" and "n \<in> set tn"
    and "call_initializer env ini (map_of config n) (update opts) (\<not> quiet opts) s
           = (evi, s', Inr (RInst t))"
    and "derives_Target (cls t)"
    and "describe env t (heap s') (world s') = Inl e"
  shows "process_target env opts config tn (n, ini) s =
    (log_message (\<not> quiet opts) (Cleaning n) @ [Instantiate n] @ evi @ [Describe n], s', Raise e)"
  using assms by (simp add: process_target_def)

text \<open>
  C9. In a dry run, when the loop over the copy of the registry reaches a selected target
  whose initializer returns a
  Target and whose \<^verbatim>\<open>describe()\<close> raises, the exception leaves \<^verbatim>\<open>cli\<close>: the trace ends
  with the call of \<^verbatim>\<open>describe()\<close>, no later target is processed, the disk is not measured
  a second time, and all this is so whatever \<^verbatim>\<open>stop_on_error\<close> is.
\<close>

theorem describe_exception_aborts_run:
  assumes "dry_run opts" and "\<not> list_targets opts"
    and "register_extra_targets env opts config s = (ev1, s1, Inr ())"
    and "dict_copy env (iter_targets s) = pre @ (n, ini) # post"
    and "tn = (if targets opts \<noteq> [] then targets opts
               else map fst (dict_copy env (iter_targets s)))"
    and "target_loop env opts config tn pre s1 = (evp, s2, Next)"
    and "n \<in> set tn"
    and "call_initializer env ini (map_of config n) (update opts) (\<not> quiet opts) s2
           = (evi, s3, Inr (RInst t))"
    and "derives_Target (cls t)"
    and "describe env t (heap s3) (world s3) = Inl e"
  shows "cli env (opts\<lparr>stop_on_error := b\<rparr>) config s =
    (log_message (\<not> quiet opts) (FoundTargets (length (iter_targets s))) @ ev1 @ [DiskUsage] @ evp
       @ log_message (\<not> quiet opts) (Cleaning n) @ [Instantiate n] @ evi @ [Describe n],
     s3, Inl e)"
proof -
  let ?o = "opts\<lparr>stop_on_error := b\<rparr>"
  have re: "register_extra_targets env ?o config s = (ev1, s1, Inr ())"
    using assms(3) register_extra_targets_opts_cong [of ?o opts env config s] by simp
  have pt: "process_target env opts config tn (n, ini) s2 =
      (log_message (\<not> quiet opts) (Cleaning n) @ [Instantiate n] @ evi @ [Describe n], s3, Raise e)"
    by (rule process_target_describe_raises [OF assms(1,7,8,9,10)])
  have eq1: "target_loop env opts config tn (dict_copy env (iter_targets s)) s1 =
      (evp @ log_message (\<not> quiet opts) (Cleaning n) @ [Instantiate n] @ evi @ [Describe n],
       s3, Raise e)"
    unfolding assms(4) by (simp add: target_loop_append assms(6) pt)
  have eq2: "target_loop env ?o config tn (dict_copy env (iter_targets s)) s1
      = target_loop env opts config tn (dict_copy env (iter_targets s)) s1"
    using assms(1) by (intro target_loop_opts_cong) simp_all
  have tn': "(if targets ?o \<noteq> [] then targets ?o
      else map fst (dict_copy env (iter_targets s))) = tn"
    using assms(5) by simp
  have tl: "target_loop env ?o config
      (if targets ?o \<noteq> [] then targets ?o else map fst (dict_copy env (iter_targets s)))
      (dict_copy env (iter_targets s)) s1 =
      (evp @ log_message (\<not> quiet opts) (Cleaning n) @ [Instantiate n] @ evi @ [Describe n],
       s3, Raise e)"
    unfolding tn' eq2 by (rule eq1)
  have nl: "\<not> list_targets ?o"
    using assms(2) by simp
  show ?thesis
    using cli_run [OF nl re tl] by simp
qed

text \<open>
  Witness for C9: a dry run over \<^verbatim>\<open>caches\<close>, \<^verbatim>\<open>brew\<close> and \<^verbatim>\<open>trash\<close>, where describing
  the shell-command target \<^verbatim>\<open>brew\<close> raises; \<^verbatim>\<open>trash\<close> is never reached.
\<close>

theorem describe_exception_aborts_run_witness:
  "dry_run (ex_options\<lparr>dry_run := True\<rparr>)
   \<and> dict_copy ex_env (iter_targets ex_state3) = [(''caches'', YamlInit ''/builtins/caches.yaml'')]
        @ (''brew'', YamlInit ''/extra/brew.yaml'') # [(''trash'', YamlInit ''/builtins/trash.yaml'')]
   \<and> describe ex_env \<lparr>cls = YamlShellCommandTarget, config_ref = Some 4, update_flag = False,
                        verbose_flag = True\<rparr>
        (heap ex_state3 @ [[(''args'', PSeq [PStr ''~/Library/Caches''])],
                           [(''args'', PStr ''brew cleanup'')]]) 100
       = Inl (RuntimeError ''no command'')
   \<and> cli ex_env (ex_options\<lparr>dry_run := True, stop_on_error := False\<rparr>) [] ex_state3 =
       ([EchoInfo (FoundTargets 3), DiskUsage, EchoInfo (Cleaning ''caches''),
         Instantiate ''caches'', Describe ''caches'', EchoWarn (Description ''rm ~/Library/Caches''),
         EchoInfo (Cleaning ''brew''), Instantiate ''brew'', Describe ''brew''],
        ex_state3\<lparr>heap := heap ex_state3 @ [[(''args'', PSeq [PStr ''~/Library/Caches''])],
                                               [(''args'', PStr ''brew cleanup'')]]\<rparr>,
        Inl (RuntimeError ''no command''))
   \<and> snd (snd (cli ex_env (ex_options\<lparr>dry_run := True, stop_on_error := True\<rparr>) [] ex_state3))
       = Inl (RuntimeError ''no command'')"
proof -
  let ?o = "ex_options\<lparr>dry_run := True\<rparr>"
  let ?t = "\<lparr>cls = YamlShellCommandTarget, config_ref = Some 4, update_flag = False,
             verbose_flag = True\<rparr>"
  let ?s2 = "ex_state3\<lparr>heap := heap ex_state3 @ [[(''args'', PSeq [PStr ''~/Library/Caches''])]]\<rparr>"
  let ?s3 = "ex_state3\<lparr>heap := heap ex_state3 @ [[(''args'', PSeq [PStr ''~/Library/Caches''])],
                                                    [(''args'', PStr ''brew cleanup'')]]\<rparr>"
  let ?tn = "if targets ?o \<noteq> [] then targets ?o
             else map fst (dict_copy ex_env (iter_targets ex_state3))"
  have a: "dry_run ?o" "\<not> list_targets ?o"
    by (simp_all add: ex_defs)
  have b: "register_extra_targets ex_env ?o [] ex_state3 = ([], ex_state3, Inr ())"
    by (simp add: run_defs ex_defs)
  have c: "dict_copy ex_env (iter_targets ex_state3) = [(''caches'', YamlInit ''/builtins/caches.yaml'')]
        @ (''brew'', YamlInit ''/extra/brew.yaml'') # [(''trash'', YamlInit ''/builtins/trash.yaml'')]"
    by (simp add: dict_copy_def iter_targets_def ex_defs)
  have d: "target_loop ex_env ?o [] ?tn [(''caches'', YamlInit ''/builtins/caches.yaml'')] ex_state3
      = ([EchoInfo (Cleaning ''caches''), Instantiate ''caches'', Describe ''caches'',
          EchoWarn (Description ''rm ~/Library/Caches'')], ?s2, Next)"
    by (simp add: run_defs ex_defs)
  have e: "''brew'' \<in> set ?tn"
    by (simp add: dict_copy_def iter_targets_def ex_defs)
  have f: "call_initializer ex_env (YamlInit ''/extra/brew.yaml'') (map_of [] ''brew'')
      (update ?o) (\<not> quiet ?o) ?s2 = ([], ?s3, Inr (RInst ?t))"
    by (simp add: run_defs ex_defs)
  have g: "derives_Target (cls ?t)"
    by simp
  have h: "describe ex_env ?t (heap ?s3) (world ?s3) = Inl (RuntimeError ''no command'')"
    by (simp add: ex_defs)
  note t = describe_exception_aborts_run [OF a b c refl d e f g h]
  have h': "describe ex_env ?t
        (heap ex_state3 @ [[(''args'', PSeq [PStr ''~/Library/Caches''])],
                           [(''args'', PStr ''brew cleanup'')]]) 100
       = Inl (RuntimeError ''no command'')"
    by (simp add: ex_defs)
  have r1: "cli ex_env (ex_options\<lparr>dry_run := True, stop_on_error := False\<rparr>) [] ex_state3 =
       ([EchoInfo (FoundTargets 3), DiskUsage, EchoInfo (Cleaning ''caches''),
         Instantiate ''caches'', Describe ''caches'', EchoWarn (Description ''rm ~/Library/Caches''),
         EchoInfo (Cleaning ''brew''), Instantiate ''brew'', Describe ''brew''], ?s3,
        Inl (RuntimeError ''no command''))"
    using t [of False] by (simp add: log_message_def iter_targets_def ex_defs)
  have r2: "snd (snd (cli ex_env (ex_options\<lparr>dry_run := True, stop_on_error := True\<rparr>) [] ex_state3))
       = Inl (RuntimeError ''no command'')"
    using t [of True] by simp
  show ?thesis
    using a(1) c h' r1 r2 by (intro conjI)
qed

end
